theory Spec2Isabelle
  imports Main
begin

section \<open>Request context and tenant scoping\<close>

text \<open>
  Go errors are modelled by their message; a function returning \<open>(T, error)\<close> becomes
  a function into \<open>error + T\<close> with \<open>Inl\<close> for the error.
\<close>

type_synonym error = string

text \<open>
  The two context slots the memory backends read.  \<open>ctx.Value(k).(string)\<close> yields
  \<open>ok = false\<close> when the slot is absent (or holds no string): \<open>None\<close> here.
\<close>

record go_context =
  org_id :: "string option"
  conversation_id :: "string option"

definition ErrNoOrgID :: error where
  "ErrNoOrgID = ''no organization ID found in context''"

text \<open>multitenancy.WithOrgID / multitenancy.GetOrgID (pkg/multitenancy/context.go).\<close>

definition WithOrgID :: "go_context \<Rightarrow> string \<Rightarrow> go_context" where
  "WithOrgID ctx orgID = ctx\<lparr>org_id := Some orgID\<rparr>"

definition GetOrgID :: "go_context \<Rightarrow> error + string" where
  "GetOrgID ctx =
     (case org_id ctx of
        None \<Rightarrow> Inl ErrNoOrgID
      | Some orgID \<Rightarrow> if orgID = [] then Inl ErrNoOrgID else Inr orgID)"

text \<open>memory.WithConversationID / memory.GetConversationID (the context helper of package memory).\<close>

definition WithConversationID :: "go_context \<Rightarrow> string \<Rightarrow> go_context" where
  "WithConversationID ctx cid = ctx\<lparr>conversation_id := Some cid\<rparr>"

definition GetConversationID :: "go_context \<Rightarrow> string option" where
  "GetConversationID ctx = conversation_id ctx"

text \<open>
  The unexported helper \<open>getConversationID\<close> of conversation\_buffer.go: it already
  combines the organization id and the conversation id as \<open>org:conversation\<close>.
\<close>

definition getConversationID :: "go_context \<Rightarrow> error + string" where
  "getConversationID ctx =
     (case GetOrgID ctx of
        Inl err \<Rightarrow> Inl (''organization ID not found in context: '' @ err)
      | Inr orgID \<Rightarrow>
          (case GetConversationID ctx of
             None \<Rightarrow> Inl ''conversation ID not found in context''
           | Some conversationID \<Rightarrow> Inr (orgID @ '':'' @ conversationID)))"

section \<open>Messages and the in-memory conversation buffer\<close>

record message =
  Role :: string
  Content :: string
  Metadata :: "(string \<times> string) list"

definition Msg :: "string \<Rightarrow> string \<Rightarrow> message" where
  "Msg r c = \<lparr>Role = r, Content = c, Metadata = []\<rparr>"

record ConversationBuffer =
  messages :: "string \<rightharpoonup> message list"
  maxSize :: int

definition WithMaxSize :: "int \<Rightarrow> ConversationBuffer \<Rightarrow> ConversationBuffer" where
  "WithMaxSize sz c = c\<lparr>maxSize := sz\<rparr>"

definition NewConversationBuffer ::
  "(ConversationBuffer \<Rightarrow> ConversationBuffer) list \<Rightarrow> ConversationBuffer" where
  "NewConversationBuffer options =
     fold (\<lambda>option buffer. option buffer) options \<lparr>messages = Map.empty, maxSize = 100\<rparr>"

text \<open>Reading a Go map at an absent key gives the zero value, the nil slice.\<close>

definition msgs_of :: "ConversationBuffer \<Rightarrow> string \<Rightarrow> message list" where
  "msgs_of c k = (case messages c k of None \<Rightarrow> [] | Some ms \<Rightarrow> ms)"

text \<open>
  The slice expression \<open>s[len(s)-n:]\<close>, evaluated only under \<open>len(s) > n > 0\<close>
  in the source, so the lower bound is in range.
\<close>

definition slice_from :: "'a list \<Rightarrow> int \<Rightarrow> 'a list" where
  "slice_from s lo = drop (nat lo) s"

definition AddMessage :: "ConversationBuffer \<Rightarrow> go_context \<Rightarrow> message \<Rightarrow> error + ConversationBuffer" where
  "AddMessage c ctx m =
     (case getConversationID ctx of
        Inl err \<Rightarrow> Inl err
      | Inr conversationID \<Rightarrow>
          (let appended = msgs_of c conversationID @ [m];
               c1 = c\<lparr>messages := (messages c)(conversationID \<mapsto> appended)\<rparr>
           in if maxSize c > 0 \<and> int (length appended) > maxSize c
              then Inr (c1\<lparr>messages := (messages c1)(conversationID \<mapsto>
                          slice_from appended (int (length appended) - maxSize c))\<rparr>)
              else Inr c1))"

text \<open>
  A run of \<open>AddMessage\<close> calls on one buffer, each with its own context; a call that
  returns an error has changed nothing, and the caller goes on.
\<close>

fun add_calls :: "ConversationBuffer \<Rightarrow> (go_context \<times> message) list \<Rightarrow> ConversationBuffer" where
  "add_calls c [] = c"
| "add_calls c ((ctx, m) # rest) =
     (case AddMessage c ctx m of Inl err \<Rightarrow> add_calls c rest | Inr c' \<Rightarrow> add_calls c' rest)"

text \<open>The messages that the calls of a run add to the conversation stored under \<open>k\<close>.\<close>

definition added_to :: "string \<Rightarrow> (go_context \<times> message) list \<Rightarrow> message list" where
  "added_to k calls = map snd (filter (\<lambda>(ctx, m). getConversationID ctx = Inr k) calls)"

text \<open>interfaces.GetMessagesOptions: the zero value has no limit and no role filter.\<close>

record GetMessagesOptions =
  Limit :: int
  Roles :: "string list"

definition no_options :: GetMessagesOptions where
  "no_options = \<lparr>Limit = 0, Roles = []\<rparr>"

text \<open>
  The role filter and the limit shared by both backends' \<open>GetMessages\<close>: a message is
  kept when its role occurs in \<open>Roles\<close>; then the last \<open>Limit\<close> messages are kept.
\<close>

definition apply_options :: "GetMessagesOptions \<Rightarrow> message list \<Rightarrow> message list" where
  "apply_options opts ms =
     (let ms1 = (if length (Roles opts) > 0 then filter (\<lambda>m. Role m \<in> set (Roles opts)) ms else ms)
      in if Limit opts > 0 \<and> Limit opts < int (length ms1)
         then slice_from ms1 (int (length ms1) - Limit opts) else ms1)"

definition GetMessages :: "ConversationBuffer \<Rightarrow> go_context \<Rightarrow> GetMessagesOptions \<Rightarrow> error + message list" where
  "GetMessages c ctx opts =
     (case getConversationID ctx of
        Inl err \<Rightarrow> Inl err
      | Inr conversationID \<Rightarrow>
          (case messages c conversationID of
             None \<Rightarrow> Inr []
           | Some ms \<Rightarrow> Inr (apply_options opts ms)))"

definition Clear :: "ConversationBuffer \<Rightarrow> go_context \<Rightarrow> error + ConversationBuffer" where
  "Clear c ctx =
     (case getConversationID ctx of
        Inl err \<Rightarrow> Inl err
      | Inr conversationID \<Rightarrow> Inr (c\<lparr>messages := (messages c)(conversationID := None)\<rparr>))"

section \<open>The Redis-backed memory\<close>

text \<open>Decimal rendering of a non-negative number, as \<open>%d\<close> prints it.\<close>

definition digit :: "nat \<Rightarrow> char" where
  "digit d = ''0123456789'' ! d"

function itoa :: "nat \<Rightarrow> string" where
  "itoa n = (if n < 10 then [digit n] else itoa (n div 10) @ [digit (n mod 10)])"
  by pat_completeness auto
termination
  by (relation "measure (\<lambda>n. n)") auto

declare itoa.simps [simp del]

text \<open>
  The configuration fields of \<open>RedisMemory\<close> that the three memory operations read.
  The Redis server behind \<open>client\<close> is a store of lists; the model stores the messages
  themselves (JSON encoding followed by decoding is taken as the identity) and a healthy
  connection, so that \<open>RPush\<close>, \<open>LRange\<close> and \<open>Del\<close> succeed at the first attempt.
  The size of the JSON encoding of a message is the parameter \<open>json_len\<close>.
\<close>

record RedisMemory =
  keyPrefix :: string
  ttl :: int
  maxMessageSize :: int

type_synonym redis = "string \<rightharpoonup> message list"

definition WithKeyPrefix :: "string \<Rightarrow> RedisMemory \<Rightarrow> RedisMemory" where
  "WithKeyPrefix prefix r = r\<lparr>keyPrefix := prefix\<rparr>"

definition WithTTL :: "int \<Rightarrow> RedisMemory \<Rightarrow> RedisMemory" where
  "WithTTL t r = r\<lparr>ttl := t\<rparr>"

definition WithMaxMessageSize :: "int \<Rightarrow> RedisMemory \<Rightarrow> RedisMemory" where
  "WithMaxMessageSize sz r = r\<lparr>maxMessageSize := sz\<rparr>"

text \<open>The default TTL is 24 hours, in nanoseconds as \<open>time.Duration\<close> counts.\<close>

definition NewRedisMemory :: "(RedisMemory \<Rightarrow> RedisMemory) list \<Rightarrow> RedisMemory" where
  "NewRedisMemory options =
     fold (\<lambda>option memory. option memory) options
       \<lparr>keyPrefix = ''agent:memory:'', ttl = 24 * 3600 * 1000000000, maxMessageSize = 1024 * 1024\<rparr>"

definition lrange :: "redis \<Rightarrow> string \<Rightarrow> message list" where
  "lrange db key = (case db key of None \<Rightarrow> [] | Some ms \<Rightarrow> ms)"

definition Redis_AddMessage ::
  "(message \<Rightarrow> nat) \<Rightarrow> RedisMemory \<Rightarrow> redis \<Rightarrow> go_context \<Rightarrow> message \<Rightarrow> error + redis" where
  "Redis_AddMessage json_len r db ctx m =
     (case getConversationID ctx of
        Inl err \<Rightarrow> Inl err
      | Inr conversationID \<Rightarrow>
          (let orgID = (case GetOrgID ctx of Inl err \<Rightarrow> ''default'' | Inr orgID \<Rightarrow> orgID);
               key = keyPrefix r @ orgID @ '':'' @ conversationID
           in if maxMessageSize r > 0 \<and> int (json_len m) > maxMessageSize r
              then Inl (''message size exceeds maximum allowed size of ''
                          @ itoa (nat (maxMessageSize r)) @ '' bytes'')
              else Inr (db(key \<mapsto> lrange db key @ [m]))))"

definition Redis_GetMessages ::
  "RedisMemory \<Rightarrow> redis \<Rightarrow> go_context \<Rightarrow> GetMessagesOptions \<Rightarrow> error + message list" where
  "Redis_GetMessages r db ctx opts =
     (case getConversationID ctx of
        Inl err \<Rightarrow> Inl (''failed to get conversation ID: '' @ err)
      | Inr conversationID \<Rightarrow>
          (let orgID = (case GetOrgID ctx of Inl err \<Rightarrow> ''default'' | Inr orgID \<Rightarrow> orgID);
               key = keyPrefix r @ orgID @ '':'' @ conversationID
           in Inr (apply_options opts (lrange db key))))"

definition Redis_Clear :: "RedisMemory \<Rightarrow> redis \<Rightarrow> go_context \<Rightarrow> error + redis" where
  "Redis_Clear r db ctx =
     (case getConversationID ctx of
        Inl err \<Rightarrow> Inl (''failed to get conversation ID: '' @ err)
      | Inr conversationID \<Rightarrow>
          (let orgID = (case GetOrgID ctx of Inl err \<Rightarrow> ''default'' | Inr orgID \<Rightarrow> orgID);
               key = keyPrefix r @ orgID @ '':'' @ conversationID
           in Inr (db(key := None))))"

section \<open>Execution plans and the plan executor\<close>

definition NL :: string where
  "NL = [CHR 0x0A]"

text \<open>strings.Join.\<close>

fun join :: "string \<Rightarrow> string list \<Rightarrow> string" where
  "join sep [] = []"
| "join sep [x] = x"
| "join sep (x # y # ys) = x @ sep @ join sep (y # ys)"

text \<open>
  Modelled from the spec: the declarations of \<open>ExecutionPlanStatus\<close>,
  \<open>ExecutionStep\<close> and \<open>ExecutionPlan\<close> are not among the source files; the
  statuses are those of the lifecycle table (the executor and the agent name
  \<open>StatusDraft\<close>, \<open>StatusApproved\<close>, \<open>StatusExecuting\<close>, \<open>StatusCompleted\<close>,
  \<open>StatusFailed\<close> and \<open>StatusCancelled\<close>), the fields are those the code reads and
  writes.  The plan's description is \<open>PlanDescription\<close> here, since a record field
  name is global.
\<close>

datatype ExecutionPlanStatus =
    StatusDraft
  | StatusAwaitingApproval
  | StatusApproved
  | StatusExecuting
  | StatusCompleted
  | StatusFailed
  | StatusCancelled

record ExecutionStep =
  ToolName :: string
  Description :: string
  Input :: string
  Parameters :: "(string \<times> string) list"

record ExecutionPlan =
  TaskID :: string
  PlanDescription :: string
  Steps :: "ExecutionStep list"
  UserApproved :: bool
  Status :: ExecutionPlanStatus

definition terminal :: "ExecutionPlanStatus \<Rightarrow> bool" where
  "terminal s = (s = StatusCompleted \<or> s = StatusFailed \<or> s = StatusCancelled)"

text \<open>
  A tool (interfaces.Tool) is its name and its \<open>Execute\<close> method, a function of the
  argument string.  What a caller can observe of a tool, the calls it received, is kept
  by the callers' models in a log.
\<close>

record Tool =
  Name :: string
  Execute :: "string \<Rightarrow> error + string"

record Executor =
  tools :: "string \<rightharpoonup> Tool"

definition NewExecutor :: "Tool list \<Rightarrow> Executor" where
  "NewExecutor ts = \<lparr>tools = fold (\<lambda>tool toolMap. toolMap(Name tool \<mapsto> tool)) ts Map.empty\<rparr>"

text \<open>
  The state \<open>ExecutePlan\<close> works on: the plan it mutates through its pointer, the
  \<open>Execute\<close> calls made so far (tool name and input) and every value assigned to
  \<open>plan.Status\<close>, in order.
\<close>

record exec_state =
  plan :: ExecutionPlan
  invoked :: "(string \<times> string) list"
  assigned :: "ExecutionPlanStatus list"

definition set_status :: "ExecutionPlanStatus \<Rightarrow> exec_state \<Rightarrow> exec_state" where
  "set_status s st = st\<lparr>plan := (plan st)\<lparr>Status := s\<rparr>, assigned := assigned st @ [s]\<rparr>"

definition log_call :: "string \<Rightarrow> string \<Rightarrow> exec_state \<Rightarrow> exec_state" where
  "log_call name input st = st\<lparr>invoked := invoked st @ [(name, input)]\<rparr>"

text \<open>The loop over \<open>plan.Steps\<close>; \<open>i\<close> is the loop index, \<open>results\<close> the slice built so far.\<close>

fun run_steps ::
  "Executor \<Rightarrow> nat \<Rightarrow> ExecutionStep list \<Rightarrow> string list \<Rightarrow> exec_state
     \<Rightarrow> (error + string list) \<times> exec_state" where
  "run_steps e i [] results st = (Inr results, st)"
| "run_steps e i (step # rest) results st =
     (case tools e (ToolName step) of
        None \<Rightarrow> (Inl (''unknown tool: '' @ ToolName step), set_status StatusFailed st)
      | Some tool \<Rightarrow>
          (case Execute tool (Input step) of
             Inl err \<Rightarrow>
               (Inl (''failed to execute step '' @ itoa (i + 1) @ '': '' @ err),
                set_status StatusFailed (log_call (ToolName step) (Input step) st))
           | Inr result \<Rightarrow>
               run_steps e (i + 1) rest
                 (results @ [''Step '' @ itoa (i + 1) @ '' ('' @ Description step @ ''): '' @ result])
                 (log_call (ToolName step) (Input step) st)))"

definition ExecutePlan :: "Executor \<Rightarrow> ExecutionPlan \<Rightarrow> (error + string) \<times> exec_state" where
  "ExecutePlan e p =
     (if \<not> UserApproved p
      then (Inl ''execution plan has not been approved by the user'',
            \<lparr>plan = p, invoked = [], assigned = []\<rparr>)
      else
        (case run_steps e 0 (Steps p) []
                (set_status StatusExecuting \<lparr>plan = p, invoked = [], assigned = []\<rparr>) of
           (Inl err, st) \<Rightarrow> (Inl err, st)
         | (Inr results, st) \<Rightarrow>
             (Inr (''Execution plan completed successfully!'' @ NL @ NL @ join (NL @ NL) results),
              set_status StatusCompleted st)))"

definition CancelPlan :: "ExecutionPlan \<Rightarrow> ExecutionPlan" where
  "CancelPlan p = p\<lparr>Status := StatusCancelled\<rparr>"

definition GetPlanStatus :: "ExecutionPlan \<Rightarrow> ExecutionPlanStatus" where
  "GetPlanStatus p = Status p"

section \<open>The agent runtime\<close>

subsection \<open>The collaborators of an agent\<close>

text \<open>
  interfaces.GenerateOptions: the system message, the response format (opaque here) and
  the LLM configuration, of which the reasoning mode is kept; the sampling parameters
  are floating-point numbers passed through to the provider and are left out.
\<close>

record LLMConfig =
  Reasoning :: string

record GenerateOptions =
  SystemMessage :: string
  ResponseFormat :: "string option"
  LLMConfig :: "LLMConfig option"

text \<open>interfaces.LLM: any implementation, given by its two generation methods.\<close>

record LLM =
  Generate :: "string \<Rightarrow> GenerateOptions \<Rightarrow> error + string"
  GenerateWithTools :: "string \<Rightarrow> Tool list \<Rightarrow> GenerateOptions \<Rightarrow> error + string"

text \<open>
  interfaces.Memory over a backend state \<open>'m\<close>; a failing operation leaves the state
  as it was.  \<open>Agent.Run\<close> calls \<open>GetMessages\<close> without options.
\<close>

record 'm Memory =
  mem_AddMessage :: "'m \<Rightarrow> go_context \<Rightarrow> message \<Rightarrow> error + 'm"
  mem_GetMessages :: "'m \<Rightarrow> go_context \<Rightarrow> error + message list"

definition buffer_memory :: "ConversationBuffer Memory" where
  "buffer_memory =
     \<lparr>mem_AddMessage = AddMessage, mem_GetMessages = (\<lambda>c ctx. GetMessages c ctx no_options)\<rparr>"

text \<open>interfaces.Guardrails.\<close>

record Guardrails =
  ProcessInput :: "go_context \<Rightarrow> string \<Rightarrow> error + string"
  ProcessOutput :: "go_context \<Rightarrow> string \<Rightarrow> error + string"

text \<open>
  interfaces.MCPServer, as far as \<open>collectMCPTools\<close> uses it: \<open>ListTools\<close>, with
  each listed tool already wrapped by \<open>mcp.NewMCPTool\<close>.
\<close>

record MCPServer =
  ListTools :: "error + Tool list"

text \<open>
  Modelled from the spec: the plan generator and the plan formatter of package
  executionplan are not among the source files.  They are parameters of the model:
  \<open>GenerateExecutionPlan\<close> and \<open>ModifyExecutionPlan\<close> are given the tools the
  generator was built with, \<open>FormatExecutionPlan\<close> renders a plan, and \<open>status_name\<close>
  is the string value of a status constant.
\<close>

record PlanGenerator =
  GenerateExecutionPlan :: "Tool list \<Rightarrow> string \<Rightarrow> error + ExecutionPlan"
  ModifyExecutionPlan :: "Tool list \<Rightarrow> ExecutionPlan \<Rightarrow> string \<Rightarrow> error + ExecutionPlan"
  FormatExecutionPlan :: "ExecutionPlan \<Rightarrow> string"
  status_name :: "ExecutionPlanStatus \<Rightarrow> string"

text \<open>
  The fields of \<open>Agent\<close>.  \<open>tools\<close> and \<open>name\<close> are \<open>agent_tools\<close> and
  \<open>agent_name\<close> here; the tracer has no effect on what \<open>Run\<close> returns or changes
  and is left out; the plan store is part of the state below.
\<close>

record 'm Agent =
  llm :: LLM
  memory :: "'m Memory option"
  agent_tools :: "Tool list"
  orgID :: string
  guardrails :: "Guardrails option"
  systemPrompt :: string
  agent_name :: string
  requirePlanApproval :: bool
  planGenerator :: PlanGenerator
  responseFormat :: "string option"
  llmConfig :: "LLMConfig option"
  mcpServers :: "MCPServer list"

definition planExecutor :: "'m Agent \<Rightarrow> Executor" where
  "planExecutor a = NewExecutor (agent_tools a)"

text \<open>
  What a turn can change or reach: the memory backend, the plan store, the tools the
  current \<open>a.planGenerator\<close> was built with (\<open>Run\<close> replaces the generator), and
  the calls made to the collaborators, recorded in order.
\<close>

datatype event =
    LLMGenerate string
  | LLMGenerateWithTools string
  | PlanGeneratorCall string
  | PlanAction string string
  | ToolExecute string string

record 'm world =
  mem :: 'm
  planStore :: "string \<rightharpoonup> ExecutionPlan"
  generatorTools :: "Tool list"
  trace :: "event list"

definition emit :: "event list \<Rightarrow> 'm world \<Rightarrow> 'm world" where
  "emit evs w = w\<lparr>trace := trace w @ evs\<rparr>"

definition StorePlan :: "ExecutionPlan \<Rightarrow> 'm world \<Rightarrow> 'm world" where
  "StorePlan p w = w\<lparr>planStore := (planStore w)(TaskID p \<mapsto> p)\<rparr>"

text \<open>
  \<open>a.memory.AddMessage\<close> under the guard \<open>a.memory != nil\<close>: without a memory
  nothing happens and there is no error.
\<close>

definition remember ::
  "'m Agent \<Rightarrow> go_context \<Rightarrow> string \<Rightarrow> string \<Rightarrow> 'm world \<Rightarrow> error + 'm world" where
  "remember a ctx role content w =
     (case memory a of
        None \<Rightarrow> Inr w
      | Some m \<Rightarrow>
          (case mem_AddMessage m (mem w) ctx (Msg role content) of
             Inl err \<Rightarrow> Inl err
           | Inr mem' \<Rightarrow> Inr (w\<lparr>mem := mem'\<rparr>)))"

subsection \<open>Plan actions\<close>

definition extractPlanAction :: "'m Agent \<Rightarrow> string \<Rightarrow> string \<times> string \<times> string" where
  "extractPlanAction a input = ([], [], input)"

definition approvePlan ::
  "'m Agent \<Rightarrow> go_context \<Rightarrow> ExecutionPlan \<Rightarrow> 'm world
     \<Rightarrow> (error + string) \<times> ExecutionPlan \<times> 'm world" where
  "approvePlan a ctx p w =
     (let p1 = p\<lparr>UserApproved := True, Status := StatusApproved\<rparr> in
      case remember a ctx ''user'' ''I approve the plan. Please proceed with execution.'' w of
        Inl err \<Rightarrow> (Inl (''failed to add approval to memory: '' @ err), p1, w)
      | Inr w1 \<Rightarrow>
          (case ExecutePlan (planExecutor a) p1 of
             (r, st) \<Rightarrow>
               (let w2 = emit (map (\<lambda>(n, i). ToolExecute n i) (invoked st)) w1 in
                case r of
                  Inl err \<Rightarrow> (Inl (''failed to execute plan: '' @ err), plan st, w2)
                | Inr result \<Rightarrow>
                    (case remember a ctx ''assistant'' result w2 of
                       Inl err \<Rightarrow>
                         (Inl (''failed to add execution result to memory: '' @ err), plan st, w2)
                     | Inr w3 \<Rightarrow> (Inr result, plan st, w3)))))"

definition modifyPlan ::
  "'m Agent \<Rightarrow> go_context \<Rightarrow> ExecutionPlan \<Rightarrow> string \<Rightarrow> 'm world
     \<Rightarrow> (error + string) \<times> 'm world" where
  "modifyPlan a ctx p input w =
     (case remember a ctx ''user'' (''I'd like to modify the plan: '' @ input) w of
        Inl err \<Rightarrow> (Inl (''failed to add modification request to memory: '' @ err), w)
      | Inr w1 \<Rightarrow>
          (let w2 = emit [PlanGeneratorCall input] w1 in
           case ModifyExecutionPlan (planGenerator a) (generatorTools w2) p input of
             Inl err \<Rightarrow> (Inl (''failed to modify plan: '' @ err), w2)
           | Inr modifiedPlan \<Rightarrow>
               (let w3 = StorePlan modifiedPlan w2;
                    text = ''I've updated the execution plan based on your feedback:'' @ NL @ NL
                      @ FormatExecutionPlan (planGenerator a) modifiedPlan @ NL
                      @ ''Do you approve this plan? You can modify it further if needed.''
                in case remember a ctx ''assistant'' text w3 of
                     Inl err \<Rightarrow> (Inl (''failed to add modified plan to memory: '' @ err), w3)
                   | Inr w4 \<Rightarrow> (Inr text, w4))))"

definition cancelPlan :: "ExecutionPlan \<Rightarrow> (error + string) \<times> ExecutionPlan" where
  "cancelPlan p = (Inr ''Plan cancelled. What would you like to do instead?'', CancelPlan p)"

definition getPlanStatus :: "'m Agent \<Rightarrow> ExecutionPlan \<Rightarrow> error + string" where
  "getPlanStatus a p =
     Inr (''Current plan status: '' @ status_name (planGenerator a) (GetPlanStatus p) @ NL @ NL
            @ FormatExecutionPlan (planGenerator a) p)"

text \<open>
  \<open>handlePlanAction\<close> works on the plan the store points to, so what \<open>approvePlan\<close>
  and \<open>cancelPlan\<close> assign to the plan is seen in the store afterwards.
\<close>

definition handlePlanAction ::
  "'m Agent \<Rightarrow> go_context \<Rightarrow> string \<Rightarrow> string \<Rightarrow> string \<Rightarrow> 'm world
     \<Rightarrow> (error + string) \<times> 'm world" where
  "handlePlanAction a ctx taskID action input w0 =
     (let w = emit [PlanAction taskID action] w0 in
      case planStore w taskID of
        None \<Rightarrow> (Inl (''plan with task ID '' @ taskID @ '' not found''), w)
      | Some p \<Rightarrow>
          (if action = ''approve'' then
             (case approvePlan a ctx p w of
                (r, p', w') \<Rightarrow> (r, w'\<lparr>planStore := (planStore w')(taskID \<mapsto> p')\<rparr>))
           else if action = ''modify'' then modifyPlan a ctx p input w
           else if action = ''cancel'' then
             (case cancelPlan p of
                (r, p') \<Rightarrow> (r, w\<lparr>planStore := (planStore w)(taskID \<mapsto> p')\<rparr>))
           else if action = ''status'' then (getPlanStatus a p, w)
           else (Inl (''unknown plan action: '' @ action), w)))"

subsection \<open>The generation paths\<close>

text \<open>strings.Contains, through strings.HasPrefix at every position.\<close>

fun has_prefix :: "string \<Rightarrow> string \<Rightarrow> bool" where
  "has_prefix s [] = True"
| "has_prefix [] (p # ps) = False"
| "has_prefix (c # cs) (p # ps) = (c = p \<and> has_prefix cs ps)"

fun Contains :: "string \<Rightarrow> string \<Rightarrow> bool" where
  "Contains [] sub = (sub = [])"
| "Contains (c # cs) sub = (has_prefix (c # cs) sub \<or> Contains cs sub)"

text \<open>
  strings.ToLower on the bytes of a string, as far as a search for ASCII phrases can
  tell.  The ASCII capital letters are lowered, and so are the two other letters whose
  lower case is an ASCII letter: U+212A (bytes E2 84 AA) becomes \<open>k\<close> and U+0130
  (bytes C4 B0) becomes \<open>i\<close>.  Every other byte beyond ASCII is left as it is, where
  Go writes the bytes of the lower-case rune, or of U+FFFD for a byte that is not
  UTF-8: bytes beyond ASCII in both cases, so that the result contains a phrase of
  \<open>roleQueries\<close> exactly when Go's does.
\<close>

definition to_lower_char :: "char \<Rightarrow> char" where
  "to_lower_char c =
     (case map_of (zip ''ABCDEFGHIJKLMNOPQRSTUVWXYZ'' ''abcdefghijklmnopqrstuvwxyz'') c of
        None \<Rightarrow> c | Some l \<Rightarrow> l)"

fun ToLower :: "string \<Rightarrow> string" where
  "ToLower [] = []"
| "ToLower (c # cs) =
     (if has_prefix (c # cs) [CHR 0xE2, CHR 0x84, CHR 0xAA] then CHR ''k'' # ToLower (drop 2 cs)
      else if has_prefix (c # cs) [CHR 0xC4, CHR 0xB0] then CHR ''i'' # ToLower (drop 1 cs)
      else to_lower_char c # ToLower cs)"

definition roleQueries :: "string list" where
  "roleQueries =
     [''what are you'', ''who are you'', ''what is your role'', ''what do you do'',
      ''what can you do'', ''what is your purpose'', ''what is your function'',
      ''tell me about yourself'', ''introduce yourself'', ''what are your capabilities'',
      ''what are you designed to do'', ''what's your job'', ''what kind of assistant are you'',
      ''your role'', ''your expertise'', ''what are you expert in'',
      ''what are you specialized in'', ''your specialty'', ''what's your specialty'']"

definition isAskingAboutRole :: "string \<Rightarrow> bool" where
  "isAskingAboutRole input = list_ex (\<lambda>query. Contains (ToLower input) query) roleQueries"

definition role_prompt :: "string \<Rightarrow> string \<Rightarrow> string" where
  "role_prompt agentName prompt =
     ''Based on the following system prompt that defines your role and capabilities,'' @ NL
   @ ''generate a brief, natural-sounding response (3-5 sentences) introducing yourself to a user who asked what you can do.'' @ NL
   @ ''You are named \"'' @ agentName @ ''\".'' @ NL
   @ ''Do not directly quote from the system prompt, but create a conversational first-person response that captures your'' @ NL
   @ ''purpose, expertise, and how you can help. The response should feel like a natural conversation, not like reading documentation.'' @ NL
   @ NL
   @ ''System prompt:'' @ NL
   @ prompt @ NL
   @ NL
   @ ''Your response should:'' @ NL
   @ ''1. Introduce yourself using first-person perspective, mentioning your name (\"'' @ agentName @ ''\")'' @ NL
   @ ''2. Briefly explain your specialization or purpose'' @ NL
   @ ''3. Mention 2-3 key areas you can help with'' @ NL
   @ ''4. End with a friendly question about how you can assist the user'' @ NL
   @ NL
   @ ''Response:''"

text \<open>
  \<open>generateRoleResponse\<close>; the agent's LLM is never nil after \<open>NewAgent\<close>, so only
  the empty system prompt gives the generic answer.
\<close>

definition generateRoleResponse :: "'m Agent \<Rightarrow> 'm world \<Rightarrow> string \<times> 'm world" where
  "generateRoleResponse a w =
     (if systemPrompt a = [] then
        (''I'm an AI assistant designed to help you with various tasks and answer your questions. How can I assist you today?'', w)
      else
        (let agentName = (if agent_name a \<noteq> [] then agent_name a else ''an AI assistant'');
             prompt = role_prompt agentName (systemPrompt a);
             w1 = emit [LLMGenerate prompt] w
         in case Generate (llm a) prompt
                  \<lparr>SystemMessage = systemPrompt a, ResponseFormat = None, LLMConfig = None\<rparr> of
              Inl err \<Rightarrow>
                (if agent_name a \<noteq> [] then
                   (''I'm '' @ agent_name a @ '', an AI assistant based on the role defined in my system prompt. How can I help you today?'', w1)
                 else
                   (''I'm an AI assistant based on the role defined in my system prompt. How can I help you today?'', w1))
            | Inr response \<Rightarrow> (response, w1)))"

text \<open>\<open>collectMCPTools\<close>: a server whose listing fails is skipped; no error is returned.\<close>

definition collectMCPTools :: "'m Agent \<Rightarrow> Tool list" where
  "collectMCPTools a =
     concat (map (\<lambda>server. case ListTools server of Inl err \<Rightarrow> [] | Inr ts \<Rightarrow> ts) (mcpServers a))"

definition formatHistoryIntoPrompt :: "message list \<Rightarrow> string" where
  "formatHistoryIntoPrompt history = concat (map (\<lambda>msg. Role msg @ '': '' @ Content msg @ NL) history)"

definition runWithExecutionPlan ::
  "'m Agent \<Rightarrow> go_context \<Rightarrow> string \<Rightarrow> 'm world \<Rightarrow> (error + string) \<times> 'm world" where
  "runWithExecutionPlan a ctx input w =
     (let w1 = emit [PlanGeneratorCall input] w in
      case GenerateExecutionPlan (planGenerator a) (generatorTools w1) input of
        Inl err \<Rightarrow> (Inl (''failed to generate execution plan: '' @ err), w1)
      | Inr p \<Rightarrow>
          (let w2 = StorePlan p w1;
               text = ''I've created an execution plan for your request:'' @ NL @ NL
                 @ FormatExecutionPlan (planGenerator a) p @ NL
                 @ ''Do you approve this plan? You can modify it if needed.''
           in case remember a ctx ''assistant'' text w2 of
                Inl err \<Rightarrow> (Inl (''failed to add plan to memory: '' @ err), w2)
              | Inr w3 \<Rightarrow> (Inr text, w3)))"

definition runWithoutExecutionPlanWithTools ::
  "'m Agent \<Rightarrow> go_context \<Rightarrow> string \<Rightarrow> Tool list \<Rightarrow> 'm world \<Rightarrow> (error + string) \<times> 'm world" where
  "runWithoutExecutionPlanWithTools a ctx input ts w =
     (case (case memory a of
              None \<Rightarrow> Inr input
            | Some m \<Rightarrow>
                (case mem_GetMessages m (mem w) ctx of
                   Inl err \<Rightarrow> Inl (''failed to get conversation history: '' @ err)
                 | Inr history \<Rightarrow> Inr (formatHistoryIntoPrompt history))) of
        Inl err \<Rightarrow> (Inl err, w)
      | Inr prompt \<Rightarrow>
          (let generateOptions =
                 \<lparr>SystemMessage = systemPrompt a, ResponseFormat = responseFormat a,
                  LLMConfig = llmConfig a\<rparr>;
               (generated, w1) =
                 (if length ts > 0
                  then (GenerateWithTools (llm a) prompt ts generateOptions,
                        emit [LLMGenerateWithTools prompt] w)
                  else (Generate (llm a) prompt generateOptions, emit [LLMGenerate prompt] w))
           in case generated of
                Inl err \<Rightarrow> (Inl (''failed to generate response: '' @ err), w1)
              | Inr response \<Rightarrow>
                  (case (case guardrails a of
                           None \<Rightarrow> Inr response
                         | Some g \<Rightarrow> ProcessOutput g ctx response) of
                     Inl err \<Rightarrow> (Inl (''guardrails error: '' @ err), w1)
                   | Inr guarded \<Rightarrow>
                       (case remember a ctx ''assistant'' guarded w1 of
                          Inl err \<Rightarrow> (Inl (''failed to add agent message to memory: '' @ err), w1)
                        | Inr w2 \<Rightarrow> (Inr guarded, w2)))))"

subsection \<open>Run\<close>

definition Run :: "'m Agent \<Rightarrow> go_context \<Rightarrow> string \<Rightarrow> 'm world \<Rightarrow> (error + string) \<times> 'm world" where
  "Run a ctx0 input0 w =
     (let ctx = (if orgID a \<noteq> [] then WithOrgID ctx0 (orgID a) else ctx0) in
      case remember a ctx ''user'' input0 w of
        Inl err \<Rightarrow> (Inl (''failed to add user message to memory: '' @ err), w)
      | Inr w1 \<Rightarrow>
          (case (case guardrails a of
                   None \<Rightarrow> Inr input0
                 | Some g \<Rightarrow> ProcessInput g ctx input0) of
             Inl err \<Rightarrow> (Inl (''guardrails error: '' @ err), w1)
           | Inr input \<Rightarrow>
               (case extractPlanAction a input of
                  (taskID, action, planInput) \<Rightarrow>
                    if taskID \<noteq> [] then handlePlanAction a ctx taskID action planInput w1
                    else if systemPrompt a \<noteq> [] \<and> isAskingAboutRole input then
                      (case generateRoleResponse a w1 of
                         (response, w2) \<Rightarrow>
                           (case remember a ctx ''assistant'' response w2 of
                              Inl err \<Rightarrow>
                                (Inl (''failed to add role response to memory: '' @ err), w2)
                            | Inr w3 \<Rightarrow> (Inr response, w3)))
                    else
                      (let allTools = agent_tools a @ collectMCPTools a in
                       if length allTools > 0 \<and> requirePlanApproval a
                       then runWithExecutionPlan a ctx input (w1\<lparr>generatorTools := allTools\<rparr>)
                       else runWithoutExecutionPlanWithTools a ctx input allTools w1))))"



section \<open>The tool-call loop of the OpenAI client\<close>

text \<open>
  A function of the client either returns a value, returns an error, or never returns
  because a goroutine panicked (a failed type assertion on a tool use).
\<close>

datatype 'a result = Ok 'a | Err error | Panic

text \<open>
  openai.ToolCall and openai.ChatCompletionMessage; \<open>tc_Name\<close> is
  \<open>Function.Name\<close>, \<open>tc_Arguments\<close> is \<open>Function.Arguments\<close>.
\<close>

record ToolCall =
  tc_ID :: string
  tc_Name :: string
  tc_Arguments :: string

record chat_message =
  cm_Role :: string
  cm_Content :: string
  cm_Name :: string
  cm_ToolCallID :: string
  cm_ToolCalls :: "ToolCall list"

text \<open>
  openai.ChatCompletionRequest: the tools are offered by name (their JSON schema is not
  modelled).
\<close>

record ChatCompletionRequest =
  req_Messages :: "chat_message list"
  req_Tools :: "string list"
  req_ResponseFormat :: "string option"
  req_ParallelToolCalls :: bool

text \<open>
  One entry of \<open>tool_uses\<close>, a \<open>map[string]interface{}\<close>:
  \<open>recipient_name\<close> is \<open>None\<close> when the key is absent or holds no string,
  \<open>parameters\<close> is \<open>None\<close> when the key is absent or holds no object; otherwise it
  is the JSON text \<open>json.Marshal\<close> gives back for the decoded object (marshalling a
  decoded JSON object does not fail).
\<close>

record tool_use =
  recipient_name :: "string option"
  parameters :: "string option"

text \<open>
  The environment of the client: the provider behind \<open>c.Client.CreateChatCompletion\<close>,
  answering a request with the messages of its choices, and \<open>json.Unmarshal\<close> of the
  arguments of a wrapped parallel call into its tool uses.
\<close>

record openai_env =
  client :: "ChatCompletionRequest \<Rightarrow> error + chat_message list"
  unmarshal :: "string \<Rightarrow> error + tool_use list"

text \<open>
  The white space of \<open>unicode.IsSpace\<close>, each rune by the bytes of its UTF-8
  encoding: tab, line feed, vertical tab, form feed, carriage return and space, U+0085,
  U+00A0, U+1680, U+2000 to U+200A, U+2028, U+2029, U+202F, U+205F and U+3000.
\<close>

definition white_space :: "string list" where
  "white_space =
     [[CHR 0x09], [CHR 0x0A], [CHR 0x0B], [CHR 0x0C], [CHR 0x0D], [CHR 0x20],
      [CHR 0xC2, CHR 0x85], [CHR 0xC2, CHR 0xA0], [CHR 0xE1, CHR 0x9A, CHR 0x80],
      [CHR 0xE2, CHR 0x80, CHR 0x80], [CHR 0xE2, CHR 0x80, CHR 0x81],
      [CHR 0xE2, CHR 0x80, CHR 0x82], [CHR 0xE2, CHR 0x80, CHR 0x83],
      [CHR 0xE2, CHR 0x80, CHR 0x84], [CHR 0xE2, CHR 0x80, CHR 0x85],
      [CHR 0xE2, CHR 0x80, CHR 0x86], [CHR 0xE2, CHR 0x80, CHR 0x87],
      [CHR 0xE2, CHR 0x80, CHR 0x88], [CHR 0xE2, CHR 0x80, CHR 0x89],
      [CHR 0xE2, CHR 0x80, CHR 0x8A], [CHR 0xE2, CHR 0x80, CHR 0xA8],
      [CHR 0xE2, CHR 0x80, CHR 0xA9], [CHR 0xE2, CHR 0x80, CHR 0xAF],
      [CHR 0xE2, CHR 0x81, CHR 0x9F], [CHR 0xE3, CHR 0x80, CHR 0x80]]"

text \<open>Removes from the front of a string, as long as there is one, a member of a list.\<close>

function strip_left :: "string list \<Rightarrow> string \<Rightarrow> string" where
  "strip_left seqs s =
     (case find (\<lambda>x. x \<noteq> [] \<and> has_prefix s x) seqs of
        None \<Rightarrow> s
      | Some x \<Rightarrow> strip_left seqs (drop (length x) s))"
  by pat_completeness auto
termination
proof (relation "measure (\<lambda>(seqs, s). length s)")
  show "wf (measure (\<lambda>(seqs, s). length s))" by simp
next
  fix seqs :: "string list" and s x :: string
  assume "find (\<lambda>x. x \<noteq> [] \<and> has_prefix s x) seqs = Some x"
  then have x: "x \<noteq> []" and p: "has_prefix s x"
    by (auto simp: find_Some_iff)
  then have "s \<noteq> []" by (cases x; cases s) auto
  with x show "((seqs, drop (length x) s), (seqs, s)) \<in> measure (\<lambda>(seqs, s). length s)"
    by simp
qed

declare strip_left.simps [simp del]

text \<open>
  strings.TrimSpace: the white-space runes at the front are removed, then those at the
  end.  Go decodes runes forwards at the front and backwards at the end; a white-space
  rune is decoded exactly where the bytes of its encoding stand, also in a string that
  is not UTF-8 throughout.
\<close>

definition TrimSpace :: "string \<Rightarrow> string" where
  "TrimSpace s = rev (strip_left (map rev white_space) (rev (strip_left white_space s)))"

definition find_tool :: "Tool list \<Rightarrow> string \<Rightarrow> Tool option" where
  "find_tool ts n = find (\<lambda>t. Name t = n) ts"

text \<open>What a worker goroutine sends on \<open>resultCh\<close>.\<close>

record toolResult =
  tr_index :: nat
  tr_result :: string
  tr_err :: "error option"

datatype worker_outcome = Sent toolResult | Panicked

text \<open>The goroutine launched for the tool use at position \<open>i\<close>.\<close>

definition parallel_worker :: "Tool list \<Rightarrow> nat \<Rightarrow> tool_use \<Rightarrow> worker_outcome" where
  "parallel_worker ts i toolUse =
     (case recipient_name toolUse of
        None \<Rightarrow> Panicked
      | Some toolName \<Rightarrow>
          (case parameters toolUse of
             None \<Rightarrow> Panicked
           | Some paramsBytes \<Rightarrow>
               (case find_tool ts toolName of
                  None \<Rightarrow> Sent \<lparr>tr_index = i, tr_result = [], tr_err = Some (''tool not found: '' @ toolName)\<rparr>
                | Some tool \<Rightarrow>
                    (case Execute tool paramsBytes of
                       Inl e \<Rightarrow> Sent \<lparr>tr_index = i, tr_result = [], tr_err = Some e\<rparr>
                     | Inr r \<Rightarrow> Sent \<lparr>tr_index = i, tr_result = r, tr_err = None\<rparr>))))"

text \<open>
  The loop \<open>for result := range resultCh\<close>: the outcomes arrive in the order in which
  the workers finish; the first error ends the turn, otherwise the result is stored at
  the worker's index.
\<close>

fun collect_results :: "worker_outcome list \<Rightarrow> string list \<Rightarrow> string list result" where
  "collect_results [] toolsResults = Ok toolsResults"
| "collect_results (Panicked # rest) toolsResults = Panic"
| "collect_results (Sent r # rest) toolsResults =
     (case tr_err r of
        Some e \<Rightarrow> Err (''error executing tool: '' @ e)
      | None \<Rightarrow> collect_results rest (toolsResults[tr_index r := tr_result r]))"

text \<open>
  A batch of tool uses whose workers finish in the order \<open>order\<close> (positions of the
  batch; only positions of the batch have a worker).
\<close>

definition run_parallel :: "Tool list \<Rightarrow> tool_use list \<Rightarrow> nat list \<Rightarrow> string list result" where
  "run_parallel ts toolUses order =
     collect_results
       (map (\<lambda>i. parallel_worker ts i (toolUses ! i)) (filter (\<lambda>i. i < length toolUses) order))
       (replicate (length toolUses) [])"

text \<open>
  The loop over the tool calls of the first response.  \<open>orders\<close> gives, for the
  batches met in turn, the order in which their workers finish; a batch beyond the list
  finishes in call order.
\<close>

fun process_calls ::
  "openai_env \<Rightarrow> Tool list \<Rightarrow> nat list list \<Rightarrow> ToolCall list \<Rightarrow> chat_message list
     \<Rightarrow> chat_message list result" where
  "process_calls env ts orders [] msgs = Ok msgs"
| "process_calls env ts orders (toolCall # rest) msgs =
     (if tc_Name toolCall = ''parallel_tool_use'' then
        (case unmarshal env (tc_Arguments toolCall) of
           Inl e \<Rightarrow> process_calls env ts orders rest msgs
         | Inr toolUses \<Rightarrow>
             (case run_parallel ts toolUses
                     (case orders of [] \<Rightarrow> [0..<length toolUses] | order # os \<Rightarrow> order) of
                Panic \<Rightarrow> Panic
              | Err e \<Rightarrow> Err e
              | Ok toolsResults \<Rightarrow>
                  process_calls env ts (tl orders) rest
                    (msgs @ [\<lparr>cm_Role = ''tool'', cm_Content = join NL toolsResults,
                                  cm_Name = ''parallel_tool_use'', cm_ToolCallID = tc_ID toolCall,
                                  cm_ToolCalls = []\<rparr>])))
      else
        (case find_tool ts (tc_Name toolCall) of
           None \<Rightarrow> Err (''tool not found: '' @ tc_Name toolCall)
         | Some selectedTool \<Rightarrow>
             if Name selectedTool = [] then Err (''tool not found: '' @ tc_Name toolCall)
             else
               (case Execute selectedTool (tc_Arguments toolCall) of
                  Inl e \<Rightarrow>
                    process_calls env ts orders rest
                      (msgs @ [\<lparr>cm_Role = ''tool'', cm_Content = ''Error: '' @ e,
                                    cm_Name = Name selectedTool, cm_ToolCallID = tc_ID toolCall,
                                    cm_ToolCalls = []\<rparr>])
                | Inr toolResult \<Rightarrow>
                    process_calls env ts orders rest
                      (msgs @ [\<lparr>cm_Role = ''tool'', cm_Content = toolResult,
                                    cm_Name = Name selectedTool, cm_ToolCallID = tc_ID toolCall,
                                    cm_ToolCalls = []\<rparr>]))))"

definition plain_message :: "string \<Rightarrow> string \<Rightarrow> chat_message" where
  "plain_message role content =
     \<lparr>cm_Role = role, cm_Content = content, cm_Name = [], cm_ToolCallID = [], cm_ToolCalls = []\<rparr>"

text \<open>The system message of the first request, with the reasoning mode applied.\<close>

definition system_messages :: "GenerateOptions \<Rightarrow> chat_message list" where
  "system_messages params =
     (let reasoning = (case LLMConfig params of None \<Rightarrow> [] | Some cfg \<Rightarrow> Reasoning cfg) in
      if SystemMessage params \<noteq> [] then
        [plain_message ''system''
           (if reasoning = ''minimal'' then
              SystemMessage params @ NL @ NL @ ''When responding, briefly explain your thought process.''
            else if reasoning = ''comprehensive'' then
              SystemMessage params @ NL @ NL @ ''When responding, please think step-by-step and explain your complete reasoning process in detail.''
            else if reasoning = ''none'' then
              SystemMessage params @ NL @ NL @ ''Provide direct, concise answers without explaining your reasoning or showing calculations.''
            else SystemMessage params)]
      else if reasoning = ''minimal'' then
        [plain_message ''system'' ''When responding, briefly explain your thought process.'']
      else if reasoning = ''comprehensive'' then
        [plain_message ''system'' ''When responding, please think step-by-step and explain your complete reasoning process in detail.'']
      else [])"

definition rename_parallel :: "ToolCall \<Rightarrow> ToolCall" where
  "rename_parallel toolCall =
     (if tc_Name toolCall = ''multi_tool_use.parallel''
      then toolCall\<lparr>tc_Name := ''parallel_tool_use''\<rparr> else toolCall)"

definition first_request :: "string \<Rightarrow> Tool list \<Rightarrow> GenerateOptions \<Rightarrow> ChatCompletionRequest" where
  "first_request prompt ts params =
     \<lparr>req_Messages = system_messages params @ [plain_message ''user'' prompt],
      req_Tools = map Name ts, req_ResponseFormat = ResponseFormat params,
      req_ParallelToolCalls = True\<rparr>"

definition final_request :: "chat_message list \<Rightarrow> GenerateOptions \<Rightarrow> ChatCompletionRequest" where
  "final_request msgs params =
     \<lparr>req_Messages = msgs, req_Tools = [], req_ResponseFormat = ResponseFormat params,
      req_ParallelToolCalls = False\<rparr>"

definition OpenAI_GenerateWithTools ::
  "openai_env \<Rightarrow> nat list list \<Rightarrow> string \<Rightarrow> Tool list \<Rightarrow> GenerateOptions \<Rightarrow> string result" where
  "OpenAI_GenerateWithTools env orders prompt ts params =
     (case client env (first_request prompt ts params) of
        Inl e \<Rightarrow> Err (''failed to create chat completion: '' @ e)
      | Inr [] \<Rightarrow> Err ''no completions returned''
      | Inr (choice # choices) \<Rightarrow>
          if length (cm_ToolCalls choice) > 0 then
            (let toolCalls = map rename_parallel (cm_ToolCalls choice) in
             case process_calls env ts orders toolCalls
                    [plain_message ''user'' prompt, choice\<lparr>cm_ToolCalls := toolCalls\<rparr>] of
               Panic \<Rightarrow> Panic
             | Err e \<Rightarrow> Err e
             | Ok msgs \<Rightarrow>
                 (case client env (final_request msgs params) of
                    Inl e \<Rightarrow> Err (''failed to create final chat completion: '' @ e)
                  | Inr [] \<Rightarrow> Err ''no completions returned''
                  | Inr (final # finals) \<Rightarrow> Ok (TrimSpace (cm_Content final))))
          else Ok (TrimSpace (cm_Content choice)))"

section \<open>The workflow orchestrator\<close>

datatype TaskStatus = TaskPending | TaskRunning | TaskCompleted | TaskFailed

text \<open>
  orchestration.Task and orchestration.Workflow; the fields of a task carry the prefix
  \<open>t_\<close>.  The workflow holds pointers to its tasks: a task is identified by its
  position in \<open>Tasks\<close>, and two tasks may carry the same \<open>ID\<close>.
\<close>

record Task =
  t_ID :: string
  t_AgentID :: string
  t_Input :: string
  t_Dependencies :: "string list"
  t_Status :: TaskStatus
  t_Result :: string
  t_Error :: "error option"

record Workflow =
  Tasks :: "Task list"
  Results :: "string \<rightharpoonup> string"
  Errors :: "string \<rightharpoonup> error"
  FinalTaskID :: string

definition NewWorkflow :: Workflow where
  "NewWorkflow = \<lparr>Tasks = [], Results = Map.empty, Errors = Map.empty, FinalTaskID = []\<rparr>"

definition AddTask :: "string \<Rightarrow> string \<Rightarrow> string \<Rightarrow> string list \<Rightarrow> Workflow \<Rightarrow> Workflow" where
  "AddTask tid agentID input dependencies w =
     w\<lparr>Tasks := Tasks w @ [\<lparr>t_ID = tid, t_AgentID = agentID, t_Input = input,
                              t_Dependencies = dependencies, t_Status = TaskPending,
                              t_Result = [], t_Error = None\<rparr>]\<rparr>"

definition SetFinalTask :: "string \<Rightarrow> Workflow \<Rightarrow> Workflow" where
  "SetFinalTask tid w = w\<lparr>FinalTaskID := tid\<rparr>"

subsection \<open>The goroutines of ExecuteWorkflow\<close>

text \<open>
  \<open>ExecuteWorkflow\<close> runs a main goroutine, a monitor goroutine and one worker
  goroutine (\<open>executeTask\<close>) per spawn.  Its state is the shared workflow, the
  monitor's \<open>completedTasks\<close> map, the workers with the point each has reached, the
  points the monitor and the main goroutine have reached, and whether the context is
  cancelled.  The wait group's counter is the number of workers that have not returned.

  A worker is \<open>Spawned\<close> until it runs; after setting the status to running, finding
  its agent and composing the input it is \<open>Calling\<close> the agent with that input; with
  the outcome recorded it is \<open>Sending\<close> its task id on the completion channel, which
  is unbuffered; once the monitor has received it the worker has \<open>Delivered\<close> it, and with
  the deferred \<open>wg.Done\<close> it is \<open>Finished\<close>.
\<close>

datatype phase = Spawned | Calling string | Sending | Delivered | Finished

record worker =
  w_task :: nat
  w_phase :: phase

text \<open>
  The monitor waits in its \<open>select\<close>, or has \<open>Received\<close> a task id, or is
  \<open>Scanning\<close> the tasks from a position on, or has \<open>Exited\<close>.
\<close>

datatype monitor_point = Selecting | Received string | Scanning nat | Exited

text \<open>
  The main goroutine is \<open>Starting\<close> tasks in its loop, or is at the call of
  \<open>wg.Wait\<close> (\<open>Waiting\<close>), or is \<open>Blocked\<close> in it, or has been
  \<open>Released\<close> from it and not yet run again, or has \<open>Returned\<close> a value, or has
  \<open>Crashed\<close>.  \<open>wg.Wait\<close> returns at once when the counter is zero and blocks
  otherwise; the \<open>wg.Done\<close> that brings the counter to zero releases it; when it
  runs again it returns if the counter is still zero and panics (the wait group is
  reused before the previous wait has returned) if \<open>wg.Add\<close> has been called since.
  The panic ends the process.
\<close>

datatype main_point = Starting nat | Waiting | Blocked | Released | Returned "error + string" | Crashed

record orch =
  wf :: Workflow
  completedTasks :: "string \<Rightarrow> bool"
  workers :: "worker list"
  monitor :: monitor_point
  main :: main_point
  cancelled :: bool

definition init :: "Workflow \<Rightarrow> orch" where
  "init w = \<lparr>wf = w, completedTasks = (\<lambda>taskID. False), workers = [], monitor = Selecting,
             main = Starting 0, cancelled = False\<rparr>"

definition task_at :: "orch \<Rightarrow> nat \<Rightarrow> Task" where
  "task_at s i = Tasks (wf s) ! i"

definition update_task :: "nat \<Rightarrow> (Task \<Rightarrow> Task) \<Rightarrow> orch \<Rightarrow> orch" where
  "update_task i f s = s\<lparr>wf := (wf s)\<lparr>Tasks := (Tasks (wf s))[i := f (Tasks (wf s) ! i)]\<rparr>\<rparr>"

definition set_phase :: "nat \<Rightarrow> phase \<Rightarrow> orch \<Rightarrow> orch" where
  "set_phase k p s = s\<lparr>workers := (workers s)[k := (workers s ! k)\<lparr>w_phase := p\<rparr>]\<rparr>"

text \<open>\<open>wg.Add(1); go o.executeTask(ctx, task, ...)\<close> for the task at position \<open>i\<close>.\<close>

definition spawn :: "nat \<Rightarrow> orch \<Rightarrow> orch" where
  "spawn i s = s\<lparr>workers := workers s @ [\<lparr>w_task = i, w_phase = Spawned\<rparr>]\<rparr>"

definition record_error :: "nat \<Rightarrow> error \<Rightarrow> orch \<Rightarrow> orch" where
  "record_error i e s =
     (let s1 = update_task i (\<lambda>t. t\<lparr>t_Status := TaskFailed, t_Error := Some e\<rparr>) s
      in s1\<lparr>wf := (wf s1)\<lparr>Errors := (Errors (wf s1))(t_ID (task_at s i) \<mapsto> e)\<rparr>\<rparr>)"

definition record_result :: "nat \<Rightarrow> string \<Rightarrow> orch \<Rightarrow> orch" where
  "record_result i r s =
     (let s1 = update_task i (\<lambda>t. t\<lparr>t_Status := TaskCompleted, t_Result := r\<rparr>) s
      in s1\<lparr>wf := (wf s1)\<lparr>Results := (Results (wf s1))(t_ID (task_at s i) \<mapsto> r)\<rparr>\<rparr>)"

text \<open>The input of a task followed by the recorded results of its dependencies.\<close>

definition compose_input :: "Workflow \<Rightarrow> Task \<Rightarrow> string" where
  "compose_input w t =
     fold (\<lambda>depID input. case Results w depID of
                            None \<Rightarrow> input
                          | Some r \<Rightarrow> input @ NL @ NL @ ''Result from '' @ depID @ '': '' @ r)
          (t_Dependencies t) (t_Input t)"

definition allCompleted :: "Workflow \<Rightarrow> bool" where
  "allCompleted w = list_all (\<lambda>t. t_Status t = TaskCompleted \<or> t_Status t = TaskFailed) (Tasks w)"

definition allDepsCompleted :: "orch \<Rightarrow> Task \<Rightarrow> bool" where
  "allDepsCompleted s t = list_all (\<lambda>depID. completedTasks s depID) (t_Dependencies t)"

text \<open>The value \<open>ExecuteWorkflow\<close> returns once \<open>wg.Wait\<close> has returned.\<close>

definition final_result :: "Workflow \<Rightarrow> error + string" where
  "final_result w =
     (if FinalTaskID w \<noteq> [] then
        (case Errors w (FinalTaskID w) of
           Some e \<Rightarrow> Inl (''final task failed: '' @ e)
         | None \<Rightarrow>
             (case Results w (FinalTaskID w) of
                Some r \<Rightarrow> Inr r
              | None \<Rightarrow> Inl ''final task result not found''))
      else Inr [])"

definition wg_counter :: "orch \<Rightarrow> nat" where
  "wg_counter s = length (filter (\<lambda>w. w_phase w \<noteq> Finished) (workers s))"

subsection \<open>Steps and schedules\<close>

text \<open>
  The scheduler picks which goroutine moves next.  \<open>AgentRegistry\<close> is not among the
  source files: the registry is a parameter saying whether an agent id is registered
  (\<open>o.registry.Get\<close> returning \<open>ok\<close>), and the outcome of \<open>agent.Run\<close>, which
  depends on the agent and on the context, comes with the step in which the call
  returns.  A context cancelled by the caller is the step \<open>CancelParent\<close>.
\<close>

datatype sched_event =
    MainStep
  | WorkerStart nat
  | WorkerReturn nat "error + string"
  | Receive nat
  | WorkerExit nat
  | MonitorStep
  | MonitorDone
  | CancelParent

text \<open>
  One step; \<open>None\<close> when the goroutine cannot move (it is blocked, or is not at that
  point, or the process has crashed).  The monitor's check of all statuses and its look at one task are one step
  each, and so is what a worker does between two calls or channel operations; the
  unsynchronised reads and writes of the shared workflow are taken as atomic.
\<close>

fun step :: "(string \<Rightarrow> bool) \<Rightarrow> orch \<Rightarrow> sched_event \<Rightarrow> orch option" where
  "step registry s MainStep =
     (case main s of
        Starting i \<Rightarrow>
          if i < length (Tasks (wf s)) then
            Some ((if length (t_Dependencies (task_at s i)) = 0 then spawn i s else s)
                    \<lparr>main := Starting (i + 1)\<rparr>)
          else Some (s\<lparr>main := Waiting\<rparr>)
      | Waiting \<Rightarrow>
          if wg_counter s = 0
          then Some (s\<lparr>main := Returned (final_result (wf s)), cancelled := True\<rparr>)
          else Some (s\<lparr>main := Blocked\<rparr>)
      | Blocked \<Rightarrow> None
      | Released \<Rightarrow>
          if wg_counter s = 0
          then Some (s\<lparr>main := Returned (final_result (wf s)), cancelled := True\<rparr>)
          else Some (s\<lparr>main := Crashed\<rparr>)
      | Returned r \<Rightarrow> None
      | Crashed \<Rightarrow> None)"
| "step registry s (WorkerStart k) =
     (if main s \<noteq> Crashed \<and> k < length (workers s) \<and> w_phase (workers s ! k) = Spawned then
        (let i = w_task (workers s ! k);
             s1 = update_task i (\<lambda>t. t\<lparr>t_Status := TaskRunning\<rparr>) s
         in if \<not> registry (t_AgentID (task_at s1 i))
            then Some (set_phase k Sending
                        (record_error i (''agent not found: '' @ t_AgentID (task_at s1 i)) s1))
            else Some (set_phase k (Calling (compose_input (wf s1) (task_at s1 i))) s1))
      else None)"
| "step registry s (WorkerReturn k outcome) =
     (if main s \<noteq> Crashed \<and> k < length (workers s) then
        (case w_phase (workers s ! k) of
           Calling input \<Rightarrow>
             (let i = w_task (workers s ! k) in
              case outcome of
                Inl e \<Rightarrow> Some (set_phase k Sending (record_error i (''agent execution failed: '' @ e) s))
              | Inr r \<Rightarrow> Some (set_phase k Sending (record_result i r s)))
         | _ \<Rightarrow> None)
      else None)"
| "step registry s (Receive k) =
     (if main s \<noteq> Crashed \<and> k < length (workers s) \<and> w_phase (workers s ! k) = Sending \<and>
         monitor s = Selecting
      then Some ((set_phase k Delivered s)\<lparr>monitor := Received (t_ID (task_at s (w_task (workers s ! k))))\<rparr>)
      else None)"
| "step registry s (WorkerExit k) =
     (if main s \<noteq> Crashed \<and> k < length (workers s) \<and> w_phase (workers s ! k) = Delivered
      then (let s1 = set_phase k Finished s
            in Some (if main s = Blocked \<and> wg_counter s1 = 0 then s1\<lparr>main := Released\<rparr> else s1))
      else None)"
| "step registry s MonitorStep =
     (if main s = Crashed then None
      else
        (case monitor s of
           Received taskID \<Rightarrow>
             (let s1 = s\<lparr>completedTasks := (completedTasks s)(taskID := True)\<rparr>
              in if allCompleted (wf s1)
                 then Some (s1\<lparr>cancelled := True, monitor := Exited\<rparr>)
                 else Some (s1\<lparr>monitor := Scanning 0\<rparr>))
         | Scanning i \<Rightarrow>
             if i < length (Tasks (wf s)) then
               Some ((if t_Status (task_at s i) = TaskPending \<and> allDepsCompleted s (task_at s i)
                      then spawn i s else s)\<lparr>monitor := Scanning (i + 1)\<rparr>)
             else Some (s\<lparr>monitor := Selecting\<rparr>)
         | _ \<Rightarrow> None))"
| "step registry s MonitorDone =
     (if main s \<noteq> Crashed \<and> monitor s = Selecting \<and> cancelled s
      then Some (s\<lparr>monitor := Exited\<rparr>) else None)"
| "step registry s CancelParent =
     (if main s \<noteq> Crashed then Some (s\<lparr>cancelled := True\<rparr>) else None)"

text \<open>A schedule is a list of steps, run from a state; \<open>None\<close> when a step cannot be taken.\<close>

fun run :: "(string \<Rightarrow> bool) \<Rightarrow> orch \<Rightarrow> sched_event list \<Rightarrow> orch option" where
  "run registry s [] = Some s"
| "run registry s (e # es) =
     (case step registry s e of None \<Rightarrow> None | Some s' \<Rightarrow> run registry s' es)"

definition statuses :: "orch \<Rightarrow> TaskStatus list" where
  "statuses s = map t_Status (Tasks (wf s))"

subsection \<open>Invariants of the orchestrator\<close>

text \<open>A task id has \<open>finished\<close> when a result or an error is recorded for it.\<close>

definition finished :: "Workflow \<Rightarrow> string \<Rightarrow> bool" where
  "finished w d = (Results w d \<noteq> None \<or> Errors w d \<noteq> None)"

text \<open>
  The ids and the dependencies of the tasks and the final task id are those of the
  workflow passed in.
\<close>

definition same_tasks :: "Workflow \<Rightarrow> orch \<Rightarrow> bool" where
  "same_tasks w0 s =
     (map t_ID (Tasks (wf s)) = map t_ID (Tasks w0) \<and>
      map t_Dependencies (Tasks (wf s)) = map t_Dependencies (Tasks w0) \<and>
      FinalTaskID (wf s) = FinalTaskID w0)"

text \<open>
  Every worker belongs to a task of the workflow, and every dependency of that task is
  marked in \<open>completedTasks\<close>.
\<close>

definition workers_ready :: "orch \<Rightarrow> bool" where
  "workers_ready s =
     (\<forall>k<length (workers s).
        w_task (workers s ! k) < length (Tasks (wf s)) \<and>
        list_all (completedTasks s) (t_Dependencies (Tasks (wf s) ! w_task (workers s ! k))))"

text \<open>
  What is marked in \<open>completedTasks\<close>, what the monitor has received and what a worker
  is sending has finished.
\<close>

definition marks_finished :: "orch \<Rightarrow> bool" where
  "marks_finished s =
     ((\<forall>d. completedTasks s d \<longrightarrow> finished (wf s) d) \<and>
      (\<forall>d. monitor s = Received d \<longrightarrow> finished (wf s) d) \<and>
      (\<forall>k<length (workers s). w_phase (workers s ! k) = Sending \<longrightarrow>
         finished (wf s) (t_ID (Tasks (wf s) ! w_task (workers s ! k)))))"

text \<open>
  What is marked in \<open>completedTasks\<close> and what the monitor has received is the id of a
  task; a task without a worker is as it was passed in.
\<close>

definition marks_known :: "Workflow \<Rightarrow> orch \<Rightarrow> bool" where
  "marks_known w0 s =
     ((\<forall>d. completedTasks s d \<longrightarrow> d \<in> set (map t_ID (Tasks w0))) \<and>
      (\<forall>d. monitor s = Received d \<longrightarrow> d \<in> set (map t_ID (Tasks w0))) \<and>
      (\<forall>i<length (Tasks w0).
         (\<forall>k<length (workers s). w_task (workers s ! k) \<noteq> i) \<longrightarrow> Tasks (wf s) ! i = Tasks w0 ! i))"

text \<open>
  A result or an error that was not in the workflow passed in stands under the id of a
  task that has a worker.
\<close>

definition recorded_by_workers :: "Workflow \<Rightarrow> orch \<Rightarrow> bool" where
  "recorded_by_workers w0 s =
     (\<forall>d. Results (wf s) d \<noteq> Results w0 d \<or> Errors (wf s) d \<noteq> Errors w0 d \<longrightarrow>
          (\<exists>k<length (workers s). t_ID (Tasks w0 ! w_task (workers s ! k)) = d))"

text \<open>
  A value returned is one of the four that \<open>final_result\<close> gives, and what it was
  computed from is still recorded.
\<close>

definition returned_value :: "Workflow \<Rightarrow> orch \<Rightarrow> bool" where
  "returned_value w0 s =
     (\<forall>r. main s = Returned r \<longrightarrow>
        (if FinalTaskID w0 = [] then r = Inr []
         else (\<exists>e. r = Inl (''final task failed: '' @ e) \<and> Errors (wf s) (FinalTaskID w0) \<noteq> None) \<or>
              (\<exists>x. r = Inr x \<and> Results (wf s) (FinalTaskID w0) \<noteq> None) \<or>
              r = Inl ''final task result not found''))"

text \<open>While the main goroutine is blocked in \<open>wg.Wait\<close> the counter is not zero.\<close>

definition blocked_waits :: "orch \<Rightarrow> bool" where
  "blocked_waits s = (main s = Blocked \<longrightarrow> wg_counter s \<noteq> 0)"

definition orch_inv :: "Workflow \<Rightarrow> orch \<Rightarrow> bool" where
  "orch_inv w0 s =
     (same_tasks w0 s \<and> workers_ready s \<and> marks_finished s \<and> marks_known w0 s \<and>
      recorded_by_workers w0 s \<and> returned_value w0 s)"

text \<open>
  The shape of a step in which the worker \<open>k\<close> writes to the workflow: only the task
  of the worker changes, keeping its id and its dependencies; results and errors are
  written under the id of that task only and none is removed; the worker moves to
  another point before its \<open>wg.Done\<close>, and if that point is \<open>Sending\<close> its task id
  has finished.
\<close>

definition worker_write :: "orch \<Rightarrow> orch \<Rightarrow> nat \<Rightarrow> bool" where
  "worker_write s s' k =
     (k < length (workers s) \<and>
      completedTasks s' = completedTasks s \<and> monitor s' = monitor s \<and> main s' = main s \<and>
      FinalTaskID (wf s') = FinalTaskID (wf s) \<and>
      (\<forall>d. Results (wf s) d \<noteq> None \<longrightarrow> Results (wf s') d \<noteq> None) \<and>
      (\<forall>d. Errors (wf s) d \<noteq> None \<longrightarrow> Errors (wf s') d \<noteq> None) \<and>
      (\<forall>d. d \<noteq> t_ID (Tasks (wf s) ! w_task (workers s ! k)) \<longrightarrow>
           Results (wf s') d = Results (wf s) d \<and> Errors (wf s') d = Errors (wf s) d) \<and>
      (\<exists>p. workers s' = (workers s)[k := (workers s ! k)\<lparr>w_phase := p\<rparr>] \<and> p \<noteq> Finished \<and>
           (p = Sending \<longrightarrow> finished (wf s') (t_ID (Tasks (wf s) ! w_task (workers s ! k))))) \<and>
      (\<exists>h. (\<forall>t. t_ID (h t) = t_ID t \<and> t_Dependencies (h t) = t_Dependencies t) \<and>
           Tasks (wf s') = (Tasks (wf s))[w_task (workers s ! k) :=
                              h (Tasks (wf s) ! w_task (workers s ! k))]))"

text \<open>
  The shape of every other step: the workflow is untouched; the workers there keep
  their task and none of them starts sending; a new worker is \<open>Spawned\<close> for a task of
  the workflow whose dependencies are all marked; a new mark is the id the monitor had
  received, an id newly received was being sent by a worker, and a value newly returned
  is \<open>final_result\<close> of the workflow.
\<close>

definition quiet_step :: "orch \<Rightarrow> orch \<Rightarrow> bool" where
  "quiet_step s s' =
     (wf s' = wf s \<and> length (workers s) \<le> length (workers s') \<and>
      (\<forall>j<length (workers s).
         w_task (workers s' ! j) = w_task (workers s ! j) \<and>
         (w_phase (workers s' ! j) = Sending \<longrightarrow> w_phase (workers s ! j) = Sending)) \<and>
      (\<forall>j<length (workers s'). length (workers s) \<le> j \<longrightarrow>
         w_phase (workers s' ! j) = Spawned \<and> w_task (workers s' ! j) < length (Tasks (wf s)) \<and>
         list_all (completedTasks s) (t_Dependencies (Tasks (wf s) ! w_task (workers s' ! j)))) \<and>
      (\<forall>d. completedTasks s d \<longrightarrow> completedTasks s' d) \<and>
      (\<forall>d. completedTasks s' d \<longrightarrow> completedTasks s d \<or> monitor s = Received d) \<and>
      (\<forall>d. monitor s' = Received d \<longrightarrow>
         monitor s = Received d \<or>
         (\<exists>j<length (workers s). w_phase (workers s ! j) = Sending \<and>
              d = t_ID (Tasks (wf s) ! w_task (workers s ! j)))) \<and>
      (\<forall>r. main s' = Returned r \<longrightarrow> main s = Returned r \<or> r = final_result (wf s)))"

section \<open>Concrete inputs used by the witnesses\<close>

text \<open>
  Calls to \<open>AddMessage\<close>: three for conversation \<open>c\<close> of tenant \<open>t\<close>, one for
  another conversation in between, and one without a tenant, which fails.
\<close>

definition three_calls :: "(go_context \<times> message) list" where
  "three_calls =
     [(\<lparr>org_id = Some ''t'', conversation_id = Some ''c''\<rparr>, Msg ''user'' ''a''),
      (\<lparr>org_id = Some ''t'', conversation_id = Some ''other''\<rparr>, Msg ''user'' ''x''),
      (\<lparr>org_id = Some ''t'', conversation_id = Some ''c''\<rparr>, Msg ''assistant'' ''b''),
      (\<lparr>org_id = None, conversation_id = Some ''c''\<rparr>, Msg ''user'' ''y''),
      (\<lparr>org_id = Some ''t'', conversation_id = Some ''c''\<rparr>, Msg ''user'' ''c'')]"

definition calc :: Tool where
  "calc = \<lparr>Name = ''calculator'', Execute = (\<lambda>input. Inr ''42'')\<rparr>"

definition plan42 :: ExecutionPlan where
  "plan42 = \<lparr>TaskID = ''t1'', PlanDescription = ''Compute 6*7'',
     Steps = [\<lparr>ToolName = ''calculator'', Description = ''multiply'', Input = ''6*7'',
               Parameters = []\<rparr>],
     UserApproved = False, Status = StatusDraft\<rparr>"


text \<open>
  A content filter blocking the word \<open>forbidden\<close>, an LLM answering \<open>Paris\<close>, and an
  agent with the in-memory buffer, the calculator tool and these guardrails.
\<close>

definition block_forbidden :: Guardrails where
  "block_forbidden =
     \<lparr>ProcessInput = (\<lambda>ctx text. if Contains text ''forbidden''
                                  then Inl ''content blocked by guardrail: content_filter''
                                  else Inr text),
      ProcessOutput = (\<lambda>ctx text. Inr text)\<rparr>"

definition paris_llm :: LLM where
  "paris_llm = \<lparr>Generate = (\<lambda>prompt opts. Inr ''Paris''),
                GenerateWithTools = (\<lambda>prompt ts opts. Inr ''Paris'')\<rparr>"

definition no_generator :: PlanGenerator where
  "no_generator =
     \<lparr>GenerateExecutionPlan = (\<lambda>ts input. Inl ''no plan''),
      ModifyExecutionPlan = (\<lambda>ts p input. Inl ''no plan''),
      FormatExecutionPlan = (\<lambda>p. PlanDescription p),
      status_name = (\<lambda>s. ''draft'')\<rparr>"

definition guarded_agent :: "ConversationBuffer Agent" where
  "guarded_agent =
     \<lparr>llm = paris_llm, memory = Some buffer_memory, agent_tools = [calc], orgID = ''acme'',
      guardrails = Some block_forbidden, systemPrompt = [], agent_name = [],
      requirePlanApproval = True, planGenerator = no_generator, responseFormat = None,
      llmConfig = None, mcpServers = []\<rparr>"

definition conv1 :: go_context where
  "conv1 = \<lparr>org_id = None, conversation_id = Some ''c1''\<rparr>"

definition world0 :: "ConversationBuffer world" where
  "world0 = \<lparr>mem = NewConversationBuffer [], planStore = Map.empty, generatorTools = [calc],
             trace = []\<rparr>"

text \<open>
  Three tools answering \<open>a\<close>, \<open>b\<close> and \<open>c\<close>, a tool that fails, a provider that
  first asks for one wrapped parallel call and then answers with the content of the last
  message it is sent, and the decoding of the wrapped arguments.
\<close>

definition toolA :: Tool where
  "toolA = \<lparr>Name = ''A'', Execute = (\<lambda>args. Inr ''a'')\<rparr>"

definition toolB :: Tool where
  "toolB = \<lparr>Name = ''B'', Execute = (\<lambda>args. Inr ''b'')\<rparr>"

definition toolC :: Tool where
  "toolC = \<lparr>Name = ''C'', Execute = (\<lambda>args. Inr ''c'')\<rparr>"

definition toolF :: Tool where
  "toolF = \<lparr>Name = ''F'', Execute = (\<lambda>args. Inl ''boom'')\<rparr>"

definition use_of :: "string \<Rightarrow> tool_use" where
  "use_of n = \<lparr>recipient_name = Some n, parameters = Some ''{}''\<rparr>"

text \<open>
  A tool use that carries parameters but no \<open>recipient_name\<close>, and a wrapped call
  whose arguments decode into a well-formed tool use followed by this one.
\<close>

definition nameless_use :: tool_use where
  "nameless_use = \<lparr>recipient_name = None, parameters = Some ''{}''\<rparr>"

definition nameless_call :: ToolCall where
  "nameless_call = \<lparr>tc_ID = ''call_4'', tc_Name = ''multi_tool_use.parallel'', tc_Arguments = ''A?''\<rparr>"

definition wrapped_call :: ToolCall where
  "wrapped_call = \<lparr>tc_ID = ''call_1'', tc_Name = ''multi_tool_use.parallel'', tc_Arguments = ''ABC''\<rparr>"

definition failing_call :: ToolCall where
  "failing_call = \<lparr>tc_ID = ''call_2'', tc_Name = ''F'', tc_Arguments = ''{}''\<rparr>"

definition echo_provider :: "ToolCall list \<Rightarrow> ChatCompletionRequest \<Rightarrow> error + chat_message list" where
  "echo_provider asked req =
     (if req_ParallelToolCalls req
      then Inr [(plain_message ''assistant'' [])\<lparr>cm_ToolCalls := asked\<rparr>]
      else Inr [plain_message ''assistant'' (cm_Content (last (req_Messages req)))])"

definition env_of :: "ToolCall list \<Rightarrow> openai_env" where
  "env_of asked =
     \<lparr>client = echo_provider asked,
      unmarshal = (\<lambda>args. if args = ''ABC'' then Inr [use_of ''A'', use_of ''B'', use_of ''C'']
                          else if args = ''AFC'' then Inr [use_of ''A'', use_of ''F'', use_of ''C'']
                          else if args = ''A?'' then Inr [use_of ''A'', nameless_use]
                          else Inl ''invalid character'')\<rparr>"

definition no_params :: GenerateOptions where
  "no_params = \<lparr>SystemMessage = [], ResponseFormat = None, LLMConfig = None\<rparr>"

text \<open>
  Two workflows: \<open>T2\<close> depends on \<open>T1\<close> and is the final task; \<open>T\<close> depends on
  an id that names no task, with no final task declared.  Every agent id is registered.
\<close>

definition wf_chain :: Workflow where
  "wf_chain =
     SetFinalTask ''T2''
       (AddTask ''T2'' ''writer'' ''second'' [''T1'']
         (AddTask ''T1'' ''researcher'' ''first'' [] NewWorkflow))"

definition wf_dangling :: Workflow where
  "wf_dangling = AddTask ''T'' ''writer'' ''only'' [''X''] NewWorkflow"

definition any_agent :: "string \<Rightarrow> bool" where
  "any_agent agentID = True"

text \<open>
  A schedule of \<open>wf_chain\<close> in which the agent of \<open>T1\<close> fails: the main goroutine
  starts \<open>T1\<close> and comes to \<open>wg.Wait\<close>, \<open>T1\<close> runs and fails, the monitor receives its id, marks it
  and comes to look at \<open>T2\<close>; then it spawns the worker of \<open>T2\<close>; then that worker
  starts.
\<close>

definition received_schedule :: "sched_event list" where
  "received_schedule =
     [MainStep, MainStep, MainStep, WorkerStart 0, WorkerReturn 0 (Inl ''boom''), Receive 0]"

definition marked_schedule :: "sched_event list" where
  "marked_schedule =
     [MainStep, MainStep, MainStep, WorkerStart 0, WorkerReturn 0 (Inl ''boom''), Receive 0,
      MonitorStep, MonitorStep]"

definition scanned_schedule :: "sched_event list" where
  "scanned_schedule = marked_schedule @ [MonitorStep]"

definition failed_dependency_schedule :: "sched_event list" where
  "failed_dependency_schedule = scanned_schedule @ [WorkerStart 1]"

text \<open>The same schedule, continued until \<open>ExecuteWorkflow\<close> returns.\<close>

definition failed_peer_schedule :: "sched_event list" where
  "failed_peer_schedule =
     failed_dependency_schedule @
     [WorkerReturn 1 (Inr ''done''), WorkerExit 0, MonitorStep, Receive 1, WorkerExit 1,
      MonitorStep, MainStep]"

text \<open>
  A schedule of \<open>wf_chain\<close> in which the main goroutine blocks in \<open>wg.Wait\<close>
  while \<open>T1\<close> runs and fails, and is released by the \<open>wg.Done\<close> of \<open>T1\<close>
  before the monitor has looked at \<open>T2\<close>; then the main goroutine runs first, or
  the monitor runs first and spawns the worker of \<open>T2\<close>.
\<close>

definition released_schedule :: "sched_event list" where
  "released_schedule =
     [MainStep, MainStep, MainStep, MainStep, WorkerStart 0, WorkerReturn 0 (Inl ''boom''),
      Receive 0, WorkerExit 0]"

definition early_return_schedule :: "sched_event list" where
  "early_return_schedule = released_schedule @ [MainStep]"

definition reused_schedule :: "sched_event list" where
  "reused_schedule = released_schedule @ [MonitorStep, MonitorStep, MonitorStep, MainStep]"

section \<open>Properties of the conversation buffer\<close>

lemma keep_last_append:
  "drop (length (drop (length xs - n) xs @ ys) - n) (drop (length xs - n) xs @ ys)
     = drop (length (xs @ ys) - n) (xs @ ys)"
  by (cases "length xs \<le> n") (auto simp: add.commute)

lemma slice_from_keep_last:
  "0 < n \<Longrightarrow> n < int (length s) \<Longrightarrow> slice_from s (int (length s) - n) = drop (length s - nat n) s"
  by (simp add: slice_from_def nat_diff_distrib)

lemma AddMessage_msgs:
  assumes "getConversationID ctx = Inr k"
  shows "\<exists>c'. AddMessage c ctx m = Inr c' \<and> maxSize c' = maxSize c \<and>
    msgs_of c' k =
      (if maxSize c > 0
       then drop (length (msgs_of c k @ [m]) - nat (maxSize c)) (msgs_of c k @ [m])
       else msgs_of c k @ [m])"
proof (cases "maxSize c > 0 \<and> int (length (msgs_of c k @ [m])) > maxSize c")
  case True
  then show ?thesis
    using assms slice_from_keep_last[of "maxSize c" "msgs_of c k @ [m]"]
    by (simp add: AddMessage_def Let_def msgs_of_def)
next
  case False
  then show ?thesis
    using assms by (auto simp: AddMessage_def Let_def msgs_of_def)
qed

lemma AddMessage_other:
  assumes "AddMessage c ctx m = Inr c'" and "getConversationID ctx \<noteq> Inr k"
  shows "msgs_of c' k = msgs_of c k \<and> maxSize c' = maxSize c"
  using assms
  by (auto simp: AddMessage_def Let_def msgs_of_def split: sum.splits if_splits)

lemma add_calls_msgs:
  assumes "0 < maxSize c"
  shows "maxSize (add_calls c calls) = maxSize c \<and>
    msgs_of (add_calls c calls) k =
      (if added_to k calls = [] then msgs_of c k
       else drop (length (msgs_of c k @ added_to k calls) - nat (maxSize c))
              (msgs_of c k @ added_to k calls))"
  using assms
proof (induction calls arbitrary: c)
  case Nil
  then show ?case by (simp add: added_to_def)
next
  case (Cons call rest)
  obtain ctx m where call: "call = (ctx, m)" by (cases call)
  show ?case
  proof (cases "getConversationID ctx = Inr k")
    case True
    from AddMessage_msgs[OF True, of c m] Cons.prems
    obtain c1 where c1: "AddMessage c ctx m = Inr c1" "maxSize c1 = maxSize c"
      "msgs_of c1 k = drop (length (msgs_of c k @ [m]) - nat (maxSize c)) (msgs_of c k @ [m])"
      by auto
    have ad: "added_to k (call # rest) = m # added_to k rest"
      using True by (simp add: added_to_def call)
    from Cons.IH[of c1] c1(2) Cons.prems
    have ih: "maxSize (add_calls c1 rest) = maxSize c"
      "msgs_of (add_calls c1 rest) k =
        (if added_to k rest = [] then msgs_of c1 k
         else drop (length (msgs_of c1 k @ added_to k rest) - nat (maxSize c))
                (msgs_of c1 k @ added_to k rest))"
      by simp_all
    show ?thesis
    proof (cases "added_to k rest = []")
      case True
      with ih c1 ad show ?thesis by (simp add: call)
    next
      case False
      have "msgs_of (add_calls c1 rest) k =
          drop (length ((msgs_of c k @ [m]) @ added_to k rest) - nat (maxSize c))
            ((msgs_of c k @ [m]) @ added_to k rest)"
        using ih(2) False unfolding c1(3) by (simp only: keep_last_append if_False)
      with ih(1) c1(1) ad show ?thesis by (simp add: call)
    qed
  next
    case False
    then have ad: "added_to k (call # rest) = added_to k rest"
      by (simp add: added_to_def call)
    show ?thesis
    proof (cases "AddMessage c ctx m")
      case (Inl err)
      with Cons.IH[OF Cons.prems] ad show ?thesis by (simp add: call)
    next
      case (Inr c1)
      from AddMessage_other[OF Inr False]
      have o: "msgs_of c1 k = msgs_of c k" "maxSize c1 = maxSize c" by simp_all
      from Cons.IH[of c1] o Cons.prems Inr ad show ?thesis by (simp add: call)
    qed
  qed
qed

text \<open>
  Claim C10.  The default cap is 100.  In a buffer whose \<open>maxSize\<close> is positive, take
  any run of \<open>AddMessage\<close> calls, in whatever contexts, of which at least one adds to
  the conversation stored under \<open>k\<close>.  Afterwards the list stored under \<open>k\<close> has at
  most \<open>maxSize\<close> entries and is exactly the last \<open>maxSize\<close> entries of what was
  stored before followed by the messages added to that conversation, in order: older
  messages are dropped.
\<close>

theorem buffer_keeps_most_recent:
  assumes "0 < maxSize c" and "added_to k calls \<noteq> []"
  shows "maxSize (NewConversationBuffer []) = 100 \<and>
         int (length (msgs_of (add_calls c calls) k)) \<le> maxSize c \<and>
         msgs_of (add_calls c calls) k
           = drop (length (msgs_of c k @ added_to k calls) - nat (maxSize c))
               (msgs_of c k @ added_to k calls)"
proof -
  from add_calls_msgs[OF assms(1), of calls k] assms(2)
  have m: "msgs_of (add_calls c calls) k
      = drop (length (msgs_of c k @ added_to k calls) - nat (maxSize c))
          (msgs_of c k @ added_to k calls)"
    by simp
  have "int (length (msgs_of (add_calls c calls) k)) \<le> maxSize c"
    unfolding m using assms(1) by simp
  moreover have "maxSize (NewConversationBuffer []) = 100"
    by (simp add: NewConversationBuffer_def)
  ultimately show ?thesis using m by blast
qed

theorem buffer_keeps_most_recent_witness:
  "0 < maxSize (NewConversationBuffer [WithMaxSize 2]) \<and>
   added_to ''t:c'' three_calls = [Msg ''user'' ''a'', Msg ''assistant'' ''b'', Msg ''user'' ''c''] \<and>
   msgs_of (add_calls (NewConversationBuffer [WithMaxSize 2]) three_calls) ''t:c''
     = [Msg ''assistant'' ''b'', Msg ''user'' ''c'']"
proof -
  have m: "0 < maxSize (NewConversationBuffer [WithMaxSize 2])"
    by (simp add: NewConversationBuffer_def WithMaxSize_def)
  have a: "added_to ''t:c'' three_calls
      = [Msg ''user'' ''a'', Msg ''assistant'' ''b'', Msg ''user'' ''c'']"
    by (simp add: added_to_def three_calls_def getConversationID_def GetOrgID_def
        GetConversationID_def)
  then have n: "added_to ''t:c'' three_calls \<noteq> []"
    by simp
  have e: "msgs_of (NewConversationBuffer [WithMaxSize 2]) ''t:c'' = []"
    by (simp add: NewConversationBuffer_def WithMaxSize_def msgs_of_def)
  have v: "maxSize (NewConversationBuffer [WithMaxSize 2]) = 2"
    by (simp add: NewConversationBuffer_def WithMaxSize_def)
  show ?thesis
    using buffer_keeps_most_recent[OF m n] m
    unfolding a e v by simp
qed

section \<open>The key used by the Redis-backed memory\<close>

text \<open>
  Claim C8 says that the key is the prefix followed by the tenant id, a colon and the
  conversation id.  On the code, with tenant \<open>acme\<close> and conversation \<open>c1\<close> in the
  context and the default prefix, \<open>AddMessage\<close> writes the list stored under
  \<open>agent:memory:acme:acme:c1\<close>, \<open>GetMessages\<close> reads it and \<open>Clear\<close>
  deletes it, while nothing is ever stored under \<open>agent:memory:acme:c1\<close>: the
  conversation id comes from \<open>getConversationID\<close>, which has already prefixed the
  tenant id.
\<close>

theorem redis_key_repeats_tenant:
  "Redis_AddMessage (\<lambda>m. length (Content m)) (NewRedisMemory []) Map.empty
       \<lparr>org_id = Some ''acme'', conversation_id = Some ''c1''\<rparr> (Msg ''user'' ''hi'')
     = Inr [''agent:memory:acme:acme:c1'' \<mapsto> [Msg ''user'' ''hi'']] \<and>
   Redis_GetMessages (NewRedisMemory []) [''agent:memory:acme:acme:c1'' \<mapsto> [Msg ''user'' ''hi'']]
       \<lparr>org_id = Some ''acme'', conversation_id = Some ''c1''\<rparr> no_options
     = Inr [Msg ''user'' ''hi''] \<and>
   Redis_GetMessages (NewRedisMemory []) [''agent:memory:acme:c1'' \<mapsto> [Msg ''user'' ''hi'']]
       \<lparr>org_id = Some ''acme'', conversation_id = Some ''c1''\<rparr> no_options
     = Inr [] \<and>
   Redis_Clear (NewRedisMemory []) [''agent:memory:acme:acme:c1'' \<mapsto> [Msg ''user'' ''hi'']]
       \<lparr>org_id = Some ''acme'', conversation_id = Some ''c1''\<rparr>
     = Inr Map.empty"
  by (simp add: Redis_AddMessage_def Redis_GetMessages_def Redis_Clear_def NewRedisMemory_def
      getConversationID_def GetOrgID_def GetConversationID_def lrange_def apply_options_def
      no_options_def Let_def Msg_def)

section \<open>Properties of the plan executor\<close>

lemma run_steps_Inr:
  "run_steps e i steps results st = (Inr rs, st') \<Longrightarrow>
     plan st' = plan st \<and> assigned st' = assigned st"
proof (induction steps arbitrary: i results st)
  case Nil
  then show ?case by simp
next
  case (Cons step rest)
  then show ?case
    by (auto simp: log_call_def split: option.splits sum.splits)
qed

lemma run_steps_Inl:
  "run_steps e i steps results st = (Inl err, st') \<Longrightarrow>
     Status (plan st') = StatusFailed \<and> assigned st' = assigned st @ [StatusFailed] \<and>
     UserApproved (plan st') = UserApproved (plan st)"
proof (induction steps arbitrary: i results st)
  case Nil
  then show ?case by simp
next
  case (Cons step rest)
  then show ?case
    by (auto simp: log_call_def set_status_def split: option.splits sum.splits)
qed

lemma run_steps_reads_only_log:
  "invoked st = invoked st' \<Longrightarrow>
     fst (run_steps e i steps results st) = fst (run_steps e i steps results st') \<and>
     invoked (snd (run_steps e i steps results st)) = invoked (snd (run_steps e i steps results st'))"
proof (induction steps arbitrary: i results st st')
  case Nil
  then show ?case by simp
next
  case (Cons step rest)
  have "invoked (log_call (ToolName step) (Input step) st)
      = invoked (log_call (ToolName step) (Input step) st')"
    using Cons.prems by (simp add: log_call_def)
  from Cons.IH[OF this] Cons.prems show ?case
    by (auto simp: log_call_def set_status_def split: option.splits sum.splits)
qed

text \<open>
  Claim C2.  On a plan whose \<open>UserApproved\<close> is false, \<open>ExecutePlan\<close> returns an
  error, calls no tool, assigns no status and leaves the plan as it was; and on any plan,
  \<open>StatusExecuting\<close> is assigned only if \<open>UserApproved\<close> is true, and it still is
  afterwards.
\<close>

theorem unapproved_plan_is_not_executed:
  "(\<not> UserApproved p \<longrightarrow>
      fst (ExecutePlan e p) = Inl ''execution plan has not been approved by the user'' \<and>
      invoked (snd (ExecutePlan e p)) = [] \<and>
      assigned (snd (ExecutePlan e p)) = [] \<and>
      plan (snd (ExecutePlan e p)) = p) \<and>
   (StatusExecuting \<in> set (assigned (snd (ExecutePlan e p))) \<longrightarrow>
      UserApproved p \<and> UserApproved (plan (snd (ExecutePlan e p))))"
proof (cases "UserApproved p")
  case False
  then show ?thesis by (simp add: ExecutePlan_def)
next
  case True
  let ?st0 = "set_status StatusExecuting \<lparr>plan = p, invoked = [], assigned = []\<rparr>"
  obtain r st where r: "run_steps e 0 (Steps p) [] ?st0 = (r, st)"
    by (cases "run_steps e 0 (Steps p) [] ?st0") auto
  have "UserApproved (plan (snd (ExecutePlan e p)))"
  proof (cases r)
    case (Inl err)
    with r run_steps_Inl[of e 0 "Steps p" "[]" ?st0 err st] True show ?thesis
      by (simp add: ExecutePlan_def set_status_def)
  next
    case (Inr rs)
    with r run_steps_Inr[of e 0 "Steps p" "[]" ?st0 rs st] True show ?thesis
      by (simp add: ExecutePlan_def set_status_def)
  qed
  with True show ?thesis by simp
qed

theorem unapproved_plan_is_not_executed_witness:
  "\<not> UserApproved plan42 \<and>
   fst (ExecutePlan (NewExecutor [calc]) plan42)
     = Inl ''execution plan has not been approved by the user'' \<and>
   invoked (snd (ExecutePlan (NewExecutor [calc]) plan42)) = [] \<and>
   StatusExecuting \<in> set (assigned (snd (ExecutePlan (NewExecutor [calc])
       (plan42\<lparr>UserApproved := True\<rparr>)))) \<and>
   UserApproved (plan (snd (ExecutePlan (NewExecutor [calc]) (plan42\<lparr>UserApproved := True\<rparr>))))"
proof -
  have a: "\<not> UserApproved plan42"
    by (simp add: plan42_def)
  have b: "StatusExecuting \<in> set (assigned (snd (ExecutePlan (NewExecutor [calc])
       (plan42\<lparr>UserApproved := True\<rparr>))))"
    by (simp add: ExecutePlan_def NewExecutor_def calc_def plan42_def set_status_def log_call_def)
  show ?thesis
    using unapproved_plan_is_not_executed[of plan42 "NewExecutor [calc]"]
      unapproved_plan_is_not_executed[of "plan42\<lparr>UserApproved := True\<rparr>" "NewExecutor [calc]"]
      a b
    by blast
qed
text \<open>
  Claim C3, as stated, fails: a plan that is already \<open>Completed\<close> and approved is run
  again by \<open>ExecutePlan\<close> (the tool is called, the status passes through
  \<open>Executing\<close>, no error is returned), and \<open>CancelPlan\<close> turns the completed plan
  into a cancelled one.
\<close>

theorem completed_plan_runs_again:
  "terminal (Status (plan42\<lparr>UserApproved := True, Status := StatusCompleted\<rparr>)) \<and>
   fst (ExecutePlan (NewExecutor [calc]) (plan42\<lparr>UserApproved := True, Status := StatusCompleted\<rparr>))
     = Inr (''Execution plan completed successfully!'' @ NL @ NL @ ''Step 1 (multiply): 42'') \<and>
   invoked (snd (ExecutePlan (NewExecutor [calc])
       (plan42\<lparr>UserApproved := True, Status := StatusCompleted\<rparr>))) = [(''calculator'', ''6*7'')] \<and>
   assigned (snd (ExecutePlan (NewExecutor [calc])
       (plan42\<lparr>UserApproved := True, Status := StatusCompleted\<rparr>)))
     = [StatusExecuting, StatusCompleted] \<and>
   Status (CancelPlan (plan42\<lparr>UserApproved := True, Status := StatusCompleted\<rparr>)) = StatusCancelled"
  by (simp add: ExecutePlan_def NewExecutor_def calc_def plan42_def set_status_def log_call_def
      CancelPlan_def terminal_def itoa.simps digit_def)

text \<open>
  Claim C3, amended.  The lifecycle operations do not look at the current status, so a
  plan in a terminal status is treated as any other plan.  For every plan, whatever its
  status: when \<open>UserApproved\<close> is false \<open>ExecutePlan\<close> returns an error, calls no
  tool and leaves the plan (so its status) unchanged; when it is true \<open>Executing\<close> is
  assigned first and the final status is \<open>Completed\<close> or \<open>Failed\<close>; the value
  returned and the tool calls made are the same for the plan put in any other status;
  and \<open>CancelPlan\<close> sets \<open>Cancelled\<close>.
\<close>

theorem lifecycle_ignores_status:
  "(\<not> UserApproved p \<longrightarrow>
      isl (fst (ExecutePlan e p)) \<and> invoked (snd (ExecutePlan e p)) = [] \<and>
      plan (snd (ExecutePlan e p)) = p) \<and>
   (UserApproved p \<longrightarrow>
      hd (assigned (snd (ExecutePlan e p))) = StatusExecuting \<and>
      (Status (plan (snd (ExecutePlan e p))) = StatusCompleted \<or>
       Status (plan (snd (ExecutePlan e p))) = StatusFailed)) \<and>
   fst (ExecutePlan e (p\<lparr>Status := s\<rparr>)) = fst (ExecutePlan e p) \<and>
   invoked (snd (ExecutePlan e (p\<lparr>Status := s\<rparr>))) = invoked (snd (ExecutePlan e p)) \<and>
   Status (CancelPlan p) = StatusCancelled"
proof (cases "UserApproved p")
  case False
  then show ?thesis by (simp add: ExecutePlan_def CancelPlan_def)
next
  case True
  let ?q = "p\<lparr>Status := s\<rparr>"
  let ?sp = "set_status StatusExecuting \<lparr>plan = p, invoked = [], assigned = []\<rparr>"
  let ?sq = "set_status StatusExecuting \<lparr>plan = ?q, invoked = [], assigned = []\<rparr>"
  obtain r st where r: "run_steps e 0 (Steps p) [] ?sp = (r, st)"
    by (cases "run_steps e 0 (Steps p) [] ?sp") auto
  obtain r' st' where r': "run_steps e 0 (Steps p) [] ?sq = (r', st')"
    by (cases "run_steps e 0 (Steps p) [] ?sq") auto
  have "invoked ?sp = invoked ?sq" by (simp add: set_status_def)
  from run_steps_reads_only_log[OF this, of e 0 "Steps p" "[]"] r r'
  have same: "r = r'" "invoked st = invoked st'" by simp_all
  have ap: "assigned ?sp = [StatusExecuting]" by (simp add: set_status_def)
  show ?thesis
  proof (cases r)
    case (Inl err)
    have e1: "run_steps e 0 (Steps p) [] ?sp = (Inl err, st)"
      and e2: "run_steps e 0 (Steps p) [] ?sq = (Inl err, st')"
      using r r' same(1) Inl by simp_all
    from run_steps_Inl[OF e1] ap
    have "Status (plan st) = StatusFailed" "assigned st = [StatusExecuting, StatusFailed]"
      by simp_all
    with True e1 e2 same(2) show ?thesis
      by (simp add: ExecutePlan_def CancelPlan_def)
  next
    case (Inr rs)
    have e1: "run_steps e 0 (Steps p) [] ?sp = (Inr rs, st)"
      and e2: "run_steps e 0 (Steps p) [] ?sq = (Inr rs, st')"
      using r r' same(1) Inr by simp_all
    from run_steps_Inr[OF e1] ap
    have "assigned st = [StatusExecuting]" by simp
    with True e1 e2 same(2) show ?thesis
      by (simp add: ExecutePlan_def CancelPlan_def set_status_def)
  qed
qed

theorem lifecycle_ignores_status_witness:
  "terminal (Status (plan42\<lparr>UserApproved := True, Status := StatusCancelled\<rparr>)) \<and>
   UserApproved (plan42\<lparr>UserApproved := True, Status := StatusCancelled\<rparr>) \<and>
   hd (assigned (snd (ExecutePlan (NewExecutor [calc])
        (plan42\<lparr>UserApproved := True, Status := StatusCancelled\<rparr>)))) = StatusExecuting \<and>
   terminal (Status (plan42\<lparr>Status := StatusFailed\<rparr>)) \<and>
   \<not> UserApproved (plan42\<lparr>Status := StatusFailed\<rparr>) \<and>
   plan (snd (ExecutePlan (NewExecutor [calc]) (plan42\<lparr>Status := StatusFailed\<rparr>)))
     = plan42\<lparr>Status := StatusFailed\<rparr> \<and>
   \<not> terminal (Status plan42) \<and> Status (CancelPlan plan42) = StatusCancelled"
proof -
  have a: "terminal (Status (plan42\<lparr>UserApproved := True, Status := StatusCancelled\<rparr>))"
    by (simp add: terminal_def)
  have b: "UserApproved (plan42\<lparr>UserApproved := True, Status := StatusCancelled\<rparr>)"
    by simp
  have c: "terminal (Status (plan42\<lparr>Status := StatusFailed\<rparr>))"
    by (simp add: terminal_def)
  have d: "\<not> UserApproved (plan42\<lparr>Status := StatusFailed\<rparr>)"
    by (simp add: plan42_def)
  have n: "\<not> terminal (Status plan42)"
    by (simp add: plan42_def terminal_def)
  show ?thesis
    using lifecycle_ignores_status[of "plan42\<lparr>UserApproved := True, Status := StatusCancelled\<rparr>"
        "NewExecutor [calc]"]
      lifecycle_ignores_status[of "plan42\<lparr>Status := StatusFailed\<rparr>" "NewExecutor [calc]"]
      lifecycle_ignores_status[of plan42 "NewExecutor [calc]"] a b c d n
    by blast
qed

section \<open>Properties of the agent runtime\<close>

lemma remember_trace:
  "remember a ctx role content w = Inr w' \<Longrightarrow>
     trace w' = trace w \<and> planStore w' = planStore w \<and> generatorTools w' = generatorTools w"
  by (auto simp: remember_def split: option.splits sum.splits)

text \<open>
  Claim C6.  When the guardrails reject the input, \<open>Run\<close> returns an error and calls
  neither the LLM nor any other collaborator (the call record is unchanged); the state
  it leaves is the one right after the user message was added to memory, so that message
  is kept and no assistant message follows it.  If adding the user message itself fails,
  \<open>Run\<close> has already returned that error and changed nothing.
\<close>

theorem guardrail_error_stops_turn:
  assumes "guardrails a = Some g"
    and "ProcessInput g (if orgID a \<noteq> [] then WithOrgID ctx0 (orgID a) else ctx0) input = Inl err"
  shows "isl (fst (Run a ctx0 input w)) \<and>
         trace (snd (Run a ctx0 input w)) = trace w \<and>
         planStore (snd (Run a ctx0 input w)) = planStore w \<and>
         (case remember a (if orgID a \<noteq> [] then WithOrgID ctx0 (orgID a) else ctx0) ''user'' input w of
            Inl e \<Rightarrow> Run a ctx0 input w = (Inl (''failed to add user message to memory: '' @ e), w)
          | Inr w1 \<Rightarrow> Run a ctx0 input w = (Inl (''guardrails error: '' @ err), w1))"
proof (cases "remember a (if orgID a \<noteq> [] then WithOrgID ctx0 (orgID a) else ctx0) ''user'' input w")
  case (Inl e)
  then show ?thesis by (simp add: Run_def Let_def)
next
  case (Inr w1)
  with assms remember_trace[OF Inr] show ?thesis by (simp add: Run_def Let_def)
qed

theorem guardrail_error_stops_turn_witness:
  "guardrails guarded_agent = Some block_forbidden \<and>
   ProcessInput block_forbidden
       (if orgID guarded_agent \<noteq> [] then WithOrgID conv1 (orgID guarded_agent) else conv1)
       ''this is forbidden''
     = Inl ''content blocked by guardrail: content_filter'' \<and>
   fst (Run guarded_agent conv1 ''this is forbidden'' world0)
     = Inl ''guardrails error: content blocked by guardrail: content_filter'' \<and>
   trace (snd (Run guarded_agent conv1 ''this is forbidden'' world0)) = [] \<and>
   msgs_of (mem (snd (Run guarded_agent conv1 ''this is forbidden'' world0))) ''acme:c1''
     = [Msg ''user'' ''this is forbidden'']"
proof -
  have g: "guardrails guarded_agent = Some block_forbidden"
    by (simp add: guarded_agent_def)
  have p: "ProcessInput block_forbidden
       (if orgID guarded_agent \<noteq> [] then WithOrgID conv1 (orgID guarded_agent) else conv1)
       ''this is forbidden''
     = Inl ''content blocked by guardrail: content_filter''"
    by (simp add: block_forbidden_def)
  have r: "remember guarded_agent
       (if orgID guarded_agent \<noteq> [] then WithOrgID conv1 (orgID guarded_agent) else conv1)
       ''user'' ''this is forbidden'' world0
     = Inr (world0\<lparr>mem := (NewConversationBuffer [])\<lparr>messages :=
               [''acme:c1'' \<mapsto> [Msg ''user'' ''this is forbidden'']]\<rparr>\<rparr>)"
    by (simp add: remember_def guarded_agent_def buffer_memory_def AddMessage_def
        getConversationID_def GetOrgID_def GetConversationID_def WithOrgID_def conv1_def
        world0_def NewConversationBuffer_def msgs_of_def Let_def)
  show ?thesis
    using guardrail_error_stops_turn[OF g p, of world0] g p
    unfolding r by (simp add: world0_def msgs_of_def)
qed








section \<open>Properties of the tool-call loop\<close>

lemma parallel_worker_index:
  "parallel_worker ts i u = Sent r \<Longrightarrow> tr_index r = i"
  by (auto simp: parallel_worker_def split: option.splits sum.splits)

lemma length_fold_update:
  "length (fold (\<lambda>i a. a[g i := f i]) js acc) = length acc"
  by (induction js arbitrary: acc) auto

lemma nth_fold_update:
  "j < length acc \<Longrightarrow>
     fold (\<lambda>i a. a[i := f i]) js acc ! j = (if j \<in> set js then f j else acc ! j)"
proof (induction js arbitrary: acc)
  case Nil
  then show ?case by simp
next
  case (Cons i js)
  have "j < length (acc[i := f i])" using Cons.prems by simp
  from Cons.IH[OF this] Cons.prems show ?case
    by (cases "i = j") auto
qed

lemma fold_update_all:
  assumes "set js = {..<n}" and "length acc = n"
  shows "fold (\<lambda>i a. a[i := f i]) js acc = map f [0..<n]"
proof (rule nth_equalityI)
  show "length (fold (\<lambda>i a. a[i := f i]) js acc) = length (map f [0..<n])"
    using assms(2) by (simp add: length_fold_update)
next
  fix j assume "j < length (fold (\<lambda>i a. a[i := f i]) js acc)"
  then have j: "j < n" using assms(2) by (simp add: length_fold_update)
  then have "j \<in> set js" using assms(1) by simp
  with j assms(2) show "fold (\<lambda>i a. a[i := f i]) js acc ! j = map f [0..<n] ! j"
    by (simp add: nth_fold_update)
qed

lemma collect_results_ok:
  "\<forall>i\<in>set js. tr_err (out i) = None \<Longrightarrow>
     collect_results (map (\<lambda>i. Sent (out i)) js) acc
       = Ok (fold (\<lambda>i a. a[tr_index (out i) := tr_result (out i)]) js acc)"
  by (induction js arbitrary: acc) auto

lemma collect_results_first_error:
  "\<forall>i\<in>set pre. tr_err (out i) = None \<Longrightarrow> tr_err (out k) = Some e \<Longrightarrow>
     collect_results (map (\<lambda>i. Sent (out i)) (pre @ k # post)) acc
       = Err (''error executing tool: '' @ e)"
  by (induction pre arbitrary: acc) auto

lemma run_parallel_ok:
  assumes sent: "\<forall>i<length toolUses. parallel_worker ts i (toolUses ! i) = Sent (out i)"
    and all: "set order = {..<length toolUses}"
    and ok: "\<forall>i<length toolUses. tr_err (out i) = None"
  shows "run_parallel ts toolUses order = Ok (map (\<lambda>i. tr_result (out i)) [0..<length toolUses])"
proof -
  let ?n = "length toolUses"
  have f: "filter (\<lambda>i. i < ?n) order = order"
    using all by (auto simp: filter_id_conv)
  have m: "map (\<lambda>i. parallel_worker ts i (toolUses ! i)) order = map (\<lambda>i. Sent (out i)) order"
    using sent all by auto
  have idx: "\<forall>i\<in>set order. tr_index (out i) = i"
    using sent all parallel_worker_index by (metis lessThan_iff)
  have "fold (\<lambda>i a. a[tr_index (out i) := tr_result (out i)]) order (replicate ?n [])
      = fold (\<lambda>i a. a[i := tr_result (out i)]) order (replicate ?n [])"
    using idx by (intro fold_cong) auto
  also have "\<dots> = map (\<lambda>i. tr_result (out i)) [0..<?n]"
    by (rule fold_update_all[OF all]) simp
  finally show ?thesis
    using ok all by (simp add: run_parallel_def f m collect_results_ok)
qed

lemma run_parallel_first_error:
  assumes sent: "\<forall>i<length toolUses. parallel_worker ts i (toolUses ! i) = Sent (out i)"
    and all: "set order = {..<length toolUses}"
    and split: "order = pre @ k # post"
    and pre: "\<forall>i\<in>set pre. tr_err (out i) = None"
    and k: "tr_err (out k) = Some e"
  shows "run_parallel ts toolUses order = Err (''error executing tool: '' @ e)"
proof -
  have f: "filter (\<lambda>i. i < length toolUses) order = order"
    using all by (auto simp: filter_id_conv)
  have m: "map (\<lambda>i. parallel_worker ts i (toolUses ! i)) order = map (\<lambda>i. Sent (out i)) order"
    using sent all by auto
  have "run_parallel ts toolUses order
      = collect_results (map (\<lambda>i. Sent (out i)) order) (replicate (length toolUses) [])"
    by (simp add: run_parallel_def f m)
  also have "\<dots> = Err (''error executing tool: '' @ e)"
    unfolding split by (rule collect_results_first_error[OF pre k])
  finally show ?thesis .
qed

text \<open>
  Batches whose workers do not panic.  Take a wrapped parallel call whose arguments
  decode into \<open>N\<close> tool uses, none of whose workers panics, and any order in which
  all \<open>N\<close> workers finish.  If no worker reports an error, the loop goes on with one
  more message of role \<open>tool\<close> whose content is the \<open>N\<close> results joined by
  newlines in the order of the tool uses, whatever the finishing order.  If a worker
  reports an error, the turn ends with the error of the first worker to finish with one,
  and no message is added.
\<close>

theorem parallel_results_joined_in_call_order:
  assumes "tc_Name call = ''parallel_tool_use''"
    and "unmarshal env (tc_Arguments call) = Inr toolUses"
    and "\<forall>i<length toolUses. parallel_worker ts i (toolUses ! i) = Sent (out i)"
    and "set order = {..<length toolUses}"
  shows "((\<forall>i<length toolUses. tr_err (out i) = None) \<longrightarrow>
            process_calls env ts (order # orders) (call # rest) msgs
              = process_calls env ts orders rest
                  (msgs @ [\<lparr>cm_Role = ''tool'',
                            cm_Content = join NL (map (\<lambda>i. tr_result (out i)) [0..<length toolUses]),
                            cm_Name = ''parallel_tool_use'', cm_ToolCallID = tc_ID call,
                            cm_ToolCalls = []\<rparr>])) \<and>
         (\<forall>pre k post e.
            order = pre @ k # post \<and> (\<forall>i\<in>set pre. tr_err (out i) = None) \<and>
            tr_err (out k) = Some e \<longrightarrow>
            process_calls env ts (order # orders) (call # rest) msgs
              = Err (''error executing tool: '' @ e))"
proof (intro conjI impI allI)
  assume "\<forall>i<length toolUses. tr_err (out i) = None"
  from run_parallel_ok[OF assms(3,4) this] assms(1,2)
  show "process_calls env ts (order # orders) (call # rest) msgs
      = process_calls env ts orders rest
          (msgs @ [\<lparr>cm_Role = ''tool'',
                    cm_Content = join NL (map (\<lambda>i. tr_result (out i)) [0..<length toolUses]),
                    cm_Name = ''parallel_tool_use'', cm_ToolCallID = tc_ID call,
                    cm_ToolCalls = []\<rparr>])"
    by simp
next
  fix pre k post e
  assume a: "order = pre @ k # post \<and> (\<forall>i\<in>set pre. tr_err (out i) = None) \<and>
            tr_err (out k) = Some e"
  from a have s: "order = pre @ k # post" and p: "\<forall>i\<in>set pre. tr_err (out i) = None"
    and k: "tr_err (out k) = Some e" by simp_all
  from run_parallel_first_error[OF assms(3,4) s p k] assms(1,2)
  show "process_calls env ts (order # orders) (call # rest) msgs
      = Err (''error executing tool: '' @ e)"
    by simp
qed

theorem parallel_results_joined_in_call_order_witness:
  "process_calls (env_of [wrapped_call]) [toolA, toolB, toolC] [[1, 2, 0]]
       [rename_parallel wrapped_call] []
     = Ok [\<lparr>cm_Role = ''tool'', cm_Content = ''a'' @ NL @ ''b'' @ NL @ ''c'',
             cm_Name = ''parallel_tool_use'', cm_ToolCallID = ''call_1'', cm_ToolCalls = []\<rparr>] \<and>
   OpenAI_GenerateWithTools (env_of [wrapped_call]) [[1, 2, 0]] ''go'' [toolA, toolB, toolC] no_params
     = Ok (''a'' @ NL @ ''b'' @ NL @ ''c'') \<and>
   process_calls (env_of []) [toolA, toolF, toolC] [[2, 1, 0]]
       [\<lparr>tc_ID = ''call_3'', tc_Name = ''parallel_tool_use'', tc_Arguments = ''AFC''\<rparr>] []
     = Err ''error executing tool: boom''"
proof -
  let ?out = "\<lambda>i. \<lparr>tr_index = i, tr_result = [''a'', ''b'', ''c''] ! i, tr_err = None\<rparr>"
  let ?uses = "[use_of ''A'', use_of ''B'', use_of ''C'']"
  let ?call = "rename_parallel wrapped_call"
  have n: "tc_Name ?call = ''parallel_tool_use''"
    by (simp add: rename_parallel_def wrapped_call_def)
  have u: "unmarshal (env_of [wrapped_call]) (tc_Arguments ?call) = Inr ?uses"
    by (simp add: rename_parallel_def wrapped_call_def env_of_def)
  have s: "\<forall>i<length ?uses. parallel_worker [toolA, toolB, toolC] i (?uses ! i) = Sent (?out i)"
    by (auto simp: parallel_worker_def use_of_def find_tool_def toolA_def toolB_def toolC_def
        less_Suc_eq)
  have o: "set [1, 2, 0] = {..<length ?uses}"
    by auto
  have ok: "\<forall>i<length ?uses. tr_err (?out i) = None"
    by simp
  have first: "process_calls (env_of [wrapped_call]) [toolA, toolB, toolC] [[1, 2, 0]] [?call] []
     = Ok [\<lparr>cm_Role = ''tool'', cm_Content = ''a'' @ NL @ ''b'' @ NL @ ''c'',
             cm_Name = ''parallel_tool_use'', cm_ToolCallID = ''call_1'', cm_ToolCalls = []\<rparr>]"
    using parallel_results_joined_in_call_order[OF n u s o, of "[]" "[]" "[]"] ok
    by (simp add: rename_parallel_def wrapped_call_def upt_rec)
  let ?outF = "\<lambda>i. \<lparr>tr_index = i, tr_result = [''a'', [], ''c''] ! i,
                     tr_err = [None, Some ''boom'', None] ! i\<rparr>"
  let ?usesF = "[use_of ''A'', use_of ''F'', use_of ''C'']"
  let ?callF = "\<lparr>tc_ID = ''call_3'', tc_Name = ''parallel_tool_use'', tc_Arguments = ''AFC''\<rparr>"
  have nF: "tc_Name ?callF = ''parallel_tool_use''"
    by simp
  have uF: "unmarshal (env_of []) (tc_Arguments ?callF) = Inr ?usesF"
    by (simp add: env_of_def)
  have sF: "\<forall>i<length ?usesF. parallel_worker [toolA, toolF, toolC] i (?usesF ! i) = Sent (?outF i)"
    by (auto simp: parallel_worker_def use_of_def find_tool_def toolA_def toolF_def toolC_def
        less_Suc_eq)
  have oF: "set [2, 1, 0] = {..<length ?usesF}"
    by auto
  have second: "process_calls (env_of []) [toolA, toolF, toolC] [[2, 1, 0]] [?callF] []
     = Err ''error executing tool: boom''"
    using parallel_results_joined_in_call_order[OF nF uF sF oF, of "[]" "[]" "[]",
          THEN conjunct2, rule_format, of "[2]" 1 "[0]" "''boom''"]
    by simp
  have whole: "OpenAI_GenerateWithTools (env_of [wrapped_call]) [[1, 2, 0]] ''go''
      [toolA, toolB, toolC] no_params = Ok (''a'' @ NL @ ''b'' @ NL @ ''c'')"
    by (simp add: OpenAI_GenerateWithTools_def env_of_def echo_provider_def first_request_def
        final_request_def no_params_def plain_message_def wrapped_call_def rename_parallel_def
        run_parallel_def parallel_worker_def use_of_def find_tool_def toolA_def toolB_def
        toolC_def TrimSpace_def white_space_def strip_left.simps NL_def system_messages_def)
  from first second whole show ?thesis by simp
qed

text \<open>
  Claim C4 says that every wrapped parallel batch ends in the joined results or in the
  first error.  On the code, a batch with a tool use that has no \<open>recipient_name\<close>
  ends in neither: the worker of that tool use panics on its type assertion, so that
  no tool message is added, no error is returned and \<open>GenerateWithTools\<close> does not
  return, in whatever order the workers finish, although the other tool use of the batch
  is well formed and its tool answers.
\<close>

theorem nameless_tool_use_panics:
  "unmarshal (env_of [nameless_call]) (tc_Arguments nameless_call) = Inr [use_of ''A'', nameless_use] \<and>
   parallel_worker [toolA] 0 (use_of ''A'') = Sent \<lparr>tr_index = 0, tr_result = ''a'', tr_err = None\<rparr> \<and>
   parallel_worker [toolA] 1 nameless_use = Panicked \<and>
   run_parallel [toolA] [use_of ''A'', nameless_use] [0, 1] = Panic \<and>
   run_parallel [toolA] [use_of ''A'', nameless_use] [1, 0] = Panic \<and>
   OpenAI_GenerateWithTools (env_of [nameless_call]) [[0, 1]] ''go'' [toolA] no_params = Panic \<and>
   OpenAI_GenerateWithTools (env_of [nameless_call]) [[1, 0]] ''go'' [toolA] no_params = Panic"
  by (simp add: OpenAI_GenerateWithTools_def env_of_def echo_provider_def first_request_def
      no_params_def plain_message_def nameless_call_def nameless_use_def rename_parallel_def
      run_parallel_def parallel_worker_def use_of_def find_tool_def toolA_def
      system_messages_def)

lemma process_calls_appends:
  "process_calls env ts orders calls msgs = Ok msgs' \<Longrightarrow> \<exists>added. msgs' = msgs @ added"
proof (induction calls arbitrary: orders msgs)
  case Nil
  then show ?case by simp
next
  case (Cons toolCall rest)
  show ?case
  proof (cases "tc_Name toolCall = ''parallel_tool_use''")
    case True
    show ?thesis
    proof (cases "unmarshal env (tc_Arguments toolCall)")
      case (Inl e)
      with True Cons show ?thesis by simp
    next
      case (Inr toolUses)
      with True Cons.prems obtain toolsResults where
        "process_calls env ts (tl orders) rest
           (msgs @ [\<lparr>cm_Role = ''tool'', cm_Content = join NL toolsResults,
                     cm_Name = ''parallel_tool_use'', cm_ToolCallID = tc_ID toolCall,
                     cm_ToolCalls = []\<rparr>]) = Ok msgs'"
        by (auto split: result.splits)
      from Cons.IH[OF this] show ?thesis by auto
    qed
  next
    case False
    with Cons.prems obtain m where "process_calls env ts orders rest (msgs @ [m]) = Ok msgs'"
      by (auto split: option.splits if_splits sum.splits)
    from Cons.IH[OF this] show ?thesis by auto
  qed
qed

text \<open>
  Claim C9.  When the tool of a plain (not wrapped) tool call is found and its
  \<open>Execute\<close> returns an error, the loop does not end the turn: it goes on with the
  remaining calls after adding a message of role \<open>tool\<close> whose content is
  \<open>Error: \<close> followed by the error.  When no later call ends the turn, that message
  is among those sent in the final request, and the provider's final answer is returned.
\<close>

theorem tool_error_is_fed_back:
  assumes "tc_Name call \<noteq> ''parallel_tool_use''"
    and "find_tool ts (tc_Name call) = Some t"
    and "Name t \<noteq> []"
    and "Execute t (tc_Arguments call) = Inl e"
  shows "process_calls env ts orders (call # rest) msgs
           = process_calls env ts orders rest
               (msgs @ [\<lparr>cm_Role = ''tool'', cm_Content = ''Error: '' @ e, cm_Name = Name t,
                         cm_ToolCallID = tc_ID call, cm_ToolCalls = []\<rparr>]) \<and>
         (\<forall>choice choices msgs' final finals.
            client env (first_request prompt ts params) = Inr (choice # choices) \<and>
            map rename_parallel (cm_ToolCalls choice) = call # rest \<and>
            process_calls env ts orders rest
              [plain_message ''user'' prompt, choice\<lparr>cm_ToolCalls := call # rest\<rparr>,
               \<lparr>cm_Role = ''tool'', cm_Content = ''Error: '' @ e, cm_Name = Name t,
                cm_ToolCallID = tc_ID call, cm_ToolCalls = []\<rparr>] = Ok msgs' \<and>
            client env (final_request msgs' params) = Inr (final # finals) \<longrightarrow>
            OpenAI_GenerateWithTools env orders prompt ts params = Ok (TrimSpace (cm_Content final)) \<and>
            msgs' ! 2 = \<lparr>cm_Role = ''tool'', cm_Content = ''Error: '' @ e, cm_Name = Name t,
                          cm_ToolCallID = tc_ID call, cm_ToolCalls = []\<rparr>)"
proof (intro conjI allI impI)
  show step: "process_calls env ts orders (call # rest) msgs
           = process_calls env ts orders rest
               (msgs @ [\<lparr>cm_Role = ''tool'', cm_Content = ''Error: '' @ e, cm_Name = Name t,
                         cm_ToolCallID = tc_ID call, cm_ToolCalls = []\<rparr>])" for msgs
    using assms by simp
  fix choice choices msgs' final finals
  let ?m = "\<lparr>cm_Role = ''tool'', cm_Content = ''Error: '' @ e, cm_Name = Name t,
             cm_ToolCallID = tc_ID call, cm_ToolCalls = []\<rparr>"
  let ?start = "[plain_message ''user'' prompt, choice\<lparr>cm_ToolCalls := call # rest\<rparr>]"
  assume a: "client env (first_request prompt ts params) = Inr (choice # choices) \<and>
            map rename_parallel (cm_ToolCalls choice) = call # rest \<and>
            process_calls env ts orders rest
              [plain_message ''user'' prompt, choice\<lparr>cm_ToolCalls := call # rest\<rparr>, ?m] = Ok msgs' \<and>
            client env (final_request msgs' params) = Inr (final # finals)"
  then have c1: "client env (first_request prompt ts params) = Inr (choice # choices)"
    and c2: "map rename_parallel (cm_ToolCalls choice) = call # rest"
    and c3: "process_calls env ts orders rest (?start @ [?m]) = Ok msgs'"
    and c4: "client env (final_request msgs' params) = Inr (final # finals)"
    by simp_all
  from c2 have ne: "length (cm_ToolCalls choice) > 0" by (cases "cm_ToolCalls choice") auto
  have "process_calls env ts orders (call # rest) ?start = Ok msgs'"
    using step[of ?start] c3 by simp
  with c1 c2 c4 ne
  show "OpenAI_GenerateWithTools env orders prompt ts params = Ok (TrimSpace (cm_Content final))"
    by (simp add: OpenAI_GenerateWithTools_def Let_def)
  from process_calls_appends[OF c3] obtain added where "msgs' = (?start @ [?m]) @ added" ..
  then show "msgs' ! 2 = ?m" by simp
qed

theorem tool_error_is_fed_back_witness:
  "OpenAI_GenerateWithTools (env_of [failing_call]) [] ''go'' [toolA, toolF] no_params
     = Ok ''Error: boom''"
proof -
  have n: "tc_Name failing_call \<noteq> ''parallel_tool_use''"
    by (simp add: failing_call_def)
  have f: "find_tool [toolA, toolF] (tc_Name failing_call) = Some toolF"
    by (simp add: find_tool_def failing_call_def toolA_def toolF_def)
  have t: "Name toolF \<noteq> []"
    by (simp add: toolF_def)
  have x: "Execute toolF (tc_Arguments failing_call) = Inl ''boom''"
    by (simp add: toolF_def)
  let ?choice = "(plain_message ''assistant'' [])\<lparr>cm_ToolCalls := [failing_call]\<rparr>"
  let ?m = "\<lparr>cm_Role = ''tool'', cm_Content = ''Error: '' @ ''boom'', cm_Name = Name toolF,
             cm_ToolCallID = tc_ID failing_call, cm_ToolCalls = []\<rparr>"
  let ?msgs = "[plain_message ''user'' ''go'', ?choice\<lparr>cm_ToolCalls := [failing_call]\<rparr>, ?m]"
  have c1: "client (env_of [failing_call]) (first_request ''go'' [toolA, toolF] no_params)
      = Inr [?choice]"
    by (simp add: env_of_def echo_provider_def first_request_def)
  have c2: "map rename_parallel (cm_ToolCalls ?choice) = [failing_call]"
    by (simp add: rename_parallel_def failing_call_def)
  have c3: "process_calls (env_of [failing_call]) [toolA, toolF] [] [] ?msgs = Ok ?msgs"
    by simp
  have c4: "client (env_of [failing_call]) (final_request ?msgs no_params)
      = Inr [plain_message ''assistant'' ''Error: boom'']"
    by (simp add: env_of_def echo_provider_def final_request_def)
  have "OpenAI_GenerateWithTools (env_of [failing_call]) [] ''go'' [toolA, toolF] no_params
      = Ok (TrimSpace (cm_Content (plain_message ''assistant'' ''Error: boom'')))"
    using tool_error_is_fed_back[OF n f t x, of "env_of [failing_call]" "[]" "[]" "[]" "''go''"
        no_params, THEN conjunct2, rule_format,
        of ?choice "[]" ?msgs "plain_message ''assistant'' ''Error: boom''" "[]", THEN conjunct1]
      c1 c2 c3 c4
    by simp
  then show ?thesis
    by (simp add: plain_message_def TrimSpace_def white_space_def strip_left.simps)
qed

section \<open>Properties of the workflow orchestrator\<close>

lemmas orch_eval =
  init_def task_at_def update_task_def set_phase_def spawn_def record_error_def
  record_result_def compose_input_def allCompleted_def allDepsCompleted_def final_result_def
  wg_counter_def statuses_def NewWorkflow_def AddTask_def SetFinalTask_def Let_def

text \<open>
  Claim C1, as stated, fails.  In \<open>wf_chain\<close> the task \<open>T2\<close> declares the
  dependency \<open>T1\<close>; after the schedule below \<open>T1\<close> is \<open>Failed\<close> and \<open>T2\<close> has
  become \<open>Running\<close>.
\<close>

theorem task_runs_after_failed_dependency:
  "map_option statuses (run any_agent (init wf_chain) failed_dependency_schedule)
     = Some [TaskFailed, TaskRunning] \<and>
   map t_Dependencies (Tasks wf_chain) = [[], [''T1'']]"
  by (simp add: orch_eval wf_chain_def any_agent_def failed_dependency_schedule_def
      scanned_schedule_def marked_schedule_def)

text \<open>
  Claim C7, as stated, fails.  In \<open>wf_dangling\<close> no worker is ever in flight and the
  only task stays \<open>Pending\<close>, yet \<open>ExecuteWorkflow\<close> returns the empty string and no
  error.  In \<open>wf_chain\<close> the final task \<open>T2\<close> depends on \<open>T1\<close>, which fails;
  \<open>T2\<close> is run all the same and its result is returned.
\<close>

theorem stalled_workflow_returns_no_error:
  "map_option (\<lambda>s. (statuses s, wg_counter s, main s))
       (run any_agent (init wf_dangling) [MainStep, MainStep, MainStep])
     = Some ([TaskPending], 0, Returned (Inr [])) \<and>
   map_option (\<lambda>s. (statuses s, main s)) (run any_agent (init wf_chain) failed_peer_schedule)
     = Some ([TaskFailed, TaskCompleted], Returned (Inr ''done''))"
  by (simp add: orch_eval wf_chain_def wf_dangling_def any_agent_def failed_peer_schedule_def
      failed_dependency_schedule_def scanned_schedule_def marked_schedule_def)

subsection \<open>What the steps change\<close>

lemma map_update_keep:
  "(\<And>t. g (h t) = g t) \<Longrightarrow> map g (xs[i := h (xs ! i)]) = map g xs"
  by (induction xs arbitrary: i) (auto split: nat.splits)

lemma update_task_parts:
  "workers (update_task i f s) = workers s"
  "completedTasks (update_task i f s) = completedTasks s"
  "monitor (update_task i f s) = monitor s"
  "main (update_task i f s) = main s"
  "Tasks (wf (update_task i f s)) = (Tasks (wf s))[i := f (Tasks (wf s) ! i)]"
  "Results (wf (update_task i f s)) = Results (wf s)"
  "Errors (wf (update_task i f s)) = Errors (wf s)"
  "FinalTaskID (wf (update_task i f s)) = FinalTaskID (wf s)"
  by (simp_all add: update_task_def)

lemma set_phase_parts:
  "wf (set_phase k p s) = wf s"
  "completedTasks (set_phase k p s) = completedTasks s"
  "monitor (set_phase k p s) = monitor s"
  "main (set_phase k p s) = main s"
  "workers (set_phase k p s) = (workers s)[k := (workers s ! k)\<lparr>w_phase := p\<rparr>]"
  by (simp_all add: set_phase_def)

lemma spawn_parts:
  "wf (spawn i s) = wf s"
  "completedTasks (spawn i s) = completedTasks s"
  "monitor (spawn i s) = monitor s"
  "main (spawn i s) = main s"
  "workers (spawn i s) = workers s @ [\<lparr>w_task = i, w_phase = Spawned\<rparr>]"
  by (simp_all add: spawn_def)

lemma record_error_parts:
  "workers (record_error i e s) = workers s"
  "completedTasks (record_error i e s) = completedTasks s"
  "monitor (record_error i e s) = monitor s"
  "main (record_error i e s) = main s"
  "Tasks (wf (record_error i e s))
     = (Tasks (wf s))[i := (Tasks (wf s) ! i)\<lparr>t_Status := TaskFailed, t_Error := Some e\<rparr>]"
  "Results (wf (record_error i e s)) = Results (wf s)"
  "Errors (wf (record_error i e s)) = (Errors (wf s))(t_ID (Tasks (wf s) ! i) \<mapsto> e)"
  "FinalTaskID (wf (record_error i e s)) = FinalTaskID (wf s)"
  by (simp_all add: record_error_def update_task_def task_at_def Let_def)

lemma record_result_parts:
  "workers (record_result i r s) = workers s"
  "completedTasks (record_result i r s) = completedTasks s"
  "monitor (record_result i r s) = monitor s"
  "main (record_result i r s) = main s"
  "Tasks (wf (record_result i r s))
     = (Tasks (wf s))[i := (Tasks (wf s) ! i)\<lparr>t_Status := TaskCompleted, t_Result := r\<rparr>]"
  "Results (wf (record_result i r s)) = (Results (wf s))(t_ID (Tasks (wf s) ! i) \<mapsto> r)"
  "Errors (wf (record_result i r s)) = Errors (wf s)"
  "FinalTaskID (wf (record_result i r s)) = FinalTaskID (wf s)"
  by (simp_all add: record_result_def update_task_def task_at_def Let_def)

lemmas orch_parts =
  update_task_parts set_phase_parts spawn_parts record_error_parts record_result_parts

text \<open>The two steps in which a worker writes to the workflow.\<close>

lemma step_WorkerStart:
  assumes "step registry s (WorkerStart k) = Some s'" and "workers_ready s"
  shows "worker_write s s' k"
proof -
  let ?i = "w_task (workers s ! k)"
  let ?s1 = "update_task ?i (\<lambda>t. t\<lparr>t_Status := TaskRunning\<rparr>) s"
  from assms(1) have k: "k < length (workers s)" "w_phase (workers s ! k) = Spawned"
    and mc: "main s \<noteq> Crashed"
    by (auto split: if_splits)
  with assms(2) have i: "?i < length (Tasks (wf s))"
    by (simp add: workers_ready_def)
  show ?thesis
  proof (cases "registry (t_AgentID (task_at ?s1 ?i))")
    case True
    with assms(1) k mc have s': "s' = set_phase k (Calling (compose_input (wf ?s1) (task_at ?s1 ?i))) ?s1"
      by (simp add: Let_def)
    have "Tasks (wf s') = (Tasks (wf s))[?i := (\<lambda>t. t\<lparr>t_Status := TaskRunning\<rparr>) (Tasks (wf s) ! ?i)]"
      by (simp add: s' orch_parts)
    then have "\<exists>h. (\<forall>t. t_ID (h t) = t_ID t \<and> t_Dependencies (h t) = t_Dependencies t) \<and>
              Tasks (wf s') = (Tasks (wf s))[?i := h (Tasks (wf s) ! ?i)]"
      by (intro exI[of _ "\<lambda>t. t\<lparr>t_Status := TaskRunning\<rparr>"]) simp
    moreover have "\<exists>p. workers s' = (workers s)[k := (workers s ! k)\<lparr>w_phase := p\<rparr>] \<and> p \<noteq> Finished \<and>
              (p = Sending \<longrightarrow> finished (wf s') (t_ID (Tasks (wf s) ! ?i)))"
      by (intro exI[of _ "Calling (compose_input (wf ?s1) (task_at ?s1 ?i))"]) (simp add: s' orch_parts)
    ultimately show ?thesis using k i unfolding worker_write_def by (simp add: s' orch_parts)
  next
    case False
    let ?e = "''agent not found: '' @ t_AgentID (task_at ?s1 ?i)"
    from False assms(1) k mc have s': "s' = set_phase k Sending (record_error ?i ?e ?s1)"
      by (simp add: Let_def)
    have "Tasks (wf s') = (Tasks (wf s))[?i :=
        (\<lambda>t. t\<lparr>t_Status := TaskFailed, t_Error := Some ?e\<rparr>) (Tasks (wf s) ! ?i)]"
      using i by (simp add: s' orch_parts)
    then have "\<exists>h. (\<forall>t. t_ID (h t) = t_ID t \<and> t_Dependencies (h t) = t_Dependencies t) \<and>
              Tasks (wf s') = (Tasks (wf s))[?i := h (Tasks (wf s) ! ?i)]"
      by (intro exI[of _ "\<lambda>t. t\<lparr>t_Status := TaskFailed, t_Error := Some ?e\<rparr>"]) simp
    moreover have "finished (wf s') (t_ID (Tasks (wf s) ! ?i))"
      using i by (simp add: s' orch_parts finished_def)
    then have "\<exists>p. workers s' = (workers s)[k := (workers s ! k)\<lparr>w_phase := p\<rparr>] \<and> p \<noteq> Finished \<and>
              (p = Sending \<longrightarrow> finished (wf s') (t_ID (Tasks (wf s) ! ?i)))"
      by (intro exI[of _ Sending]) (simp add: s' orch_parts)
    ultimately show ?thesis using k i unfolding worker_write_def by (simp add: s' orch_parts)
  qed
qed

lemma step_WorkerReturn:
  assumes "step registry s (WorkerReturn k outcome) = Some s'" and "workers_ready s"
  shows "worker_write s s' k"
proof -
  let ?i = "w_task (workers s ! k)"
  from assms(1) obtain input where k: "k < length (workers s)"
    and ph: "w_phase (workers s ! k) = Calling input" and mc: "main s \<noteq> Crashed"
    by (auto split: if_splits phase.splits)
  with assms(2) have i: "?i < length (Tasks (wf s))"
    by (simp add: workers_ready_def)
  show ?thesis
  proof (cases outcome)
    case (Inl e)
    let ?e = "''agent execution failed: '' @ e"
    from Inl assms(1) k ph mc have s': "s' = set_phase k Sending (record_error ?i ?e s)"
      by (simp add: Let_def)
    have "Tasks (wf s') = (Tasks (wf s))[?i :=
        (\<lambda>t. t\<lparr>t_Status := TaskFailed, t_Error := Some ?e\<rparr>) (Tasks (wf s) ! ?i)]"
      by (simp add: s' orch_parts)
    then have "\<exists>h. (\<forall>t. t_ID (h t) = t_ID t \<and> t_Dependencies (h t) = t_Dependencies t) \<and>
              Tasks (wf s') = (Tasks (wf s))[?i := h (Tasks (wf s) ! ?i)]"
      by (intro exI[of _ "\<lambda>t. t\<lparr>t_Status := TaskFailed, t_Error := Some ?e\<rparr>"]) simp
    moreover have "finished (wf s') (t_ID (Tasks (wf s) ! ?i))"
      by (simp add: s' orch_parts finished_def)
    then have "\<exists>p. workers s' = (workers s)[k := (workers s ! k)\<lparr>w_phase := p\<rparr>] \<and> p \<noteq> Finished \<and>
              (p = Sending \<longrightarrow> finished (wf s') (t_ID (Tasks (wf s) ! ?i)))"
      by (intro exI[of _ Sending]) (simp add: s' orch_parts)
    ultimately show ?thesis using k i unfolding worker_write_def by (simp add: s' orch_parts)
  next
    case (Inr r)
    from Inr assms(1) k ph mc have s': "s' = set_phase k Sending (record_result ?i r s)"
      by (simp add: Let_def)
    have "Tasks (wf s') = (Tasks (wf s))[?i :=
        (\<lambda>t. t\<lparr>t_Status := TaskCompleted, t_Result := r\<rparr>) (Tasks (wf s) ! ?i)]"
      by (simp add: s' orch_parts)
    then have "\<exists>h. (\<forall>t. t_ID (h t) = t_ID t \<and> t_Dependencies (h t) = t_Dependencies t) \<and>
              Tasks (wf s') = (Tasks (wf s))[?i := h (Tasks (wf s) ! ?i)]"
      by (intro exI[of _ "\<lambda>t. t\<lparr>t_Status := TaskCompleted, t_Result := r\<rparr>"]) simp
    moreover have "finished (wf s') (t_ID (Tasks (wf s) ! ?i))"
      by (simp add: s' orch_parts finished_def)
    then have "\<exists>p. workers s' = (workers s)[k := (workers s ! k)\<lparr>w_phase := p\<rparr>] \<and> p \<noteq> Finished \<and>
              (p = Sending \<longrightarrow> finished (wf s') (t_ID (Tasks (wf s) ! ?i)))"
      by (intro exI[of _ Sending]) (simp add: s' orch_parts)
    ultimately show ?thesis using k i unfolding worker_write_def by (simp add: s' orch_parts)
  qed
qed

subsection \<open>The invariants hold along every schedule\<close>

lemma worker_write_inv:
  assumes ww: "worker_write s s' k" and inv: "orch_inv w0 s"
  shows "orch_inv w0 s'"
proof -
  let ?i = "w_task (workers s ! k)"
  from ww obtain p h where k: "k < length (workers s)"
    and ct: "completedTasks s' = completedTasks s" and mo: "monitor s' = monitor s"
    and ma: "main s' = main s" and fi: "FinalTaskID (wf s') = FinalTaskID (wf s)"
    and res: "\<And>d. Results (wf s) d \<noteq> None \<Longrightarrow> Results (wf s') d \<noteq> None"
    and err: "\<And>d. Errors (wf s) d \<noteq> None \<Longrightarrow> Errors (wf s') d \<noteq> None"
    and frame: "\<And>d. d \<noteq> t_ID (Tasks (wf s) ! ?i) \<Longrightarrow>
                  Results (wf s') d = Results (wf s) d \<and> Errors (wf s') d = Errors (wf s) d"
    and ws: "workers s' = (workers s)[k := (workers s ! k)\<lparr>w_phase := p\<rparr>]"
    and snd: "p = Sending \<Longrightarrow> finished (wf s') (t_ID (Tasks (wf s) ! ?i))"
    and h: "\<And>t. t_ID (h t) = t_ID t" "\<And>t. t_Dependencies (h t) = t_Dependencies t"
    and ts: "Tasks (wf s') = (Tasks (wf s))[?i := h (Tasks (wf s) ! ?i)]"
    unfolding worker_write_def by blast
  from inv have st: "same_tasks w0 s" and rd: "workers_ready s" and mf: "marks_finished s"
    and mk: "marks_known w0 s" and rw: "recorded_by_workers w0 s" and rv: "returned_value w0 s"
    by (simp_all add: orch_inv_def)
  have fin: "finished (wf s') d" if "finished (wf s) d" for d
    using that res[of d] err[of d] unfolding finished_def by blast
  have ids: "map t_ID (Tasks (wf s')) = map t_ID (Tasks (wf s))"
    unfolding ts by (rule map_update_keep) (rule h(1))
  have deps: "map t_Dependencies (Tasks (wf s')) = map t_Dependencies (Tasks (wf s))"
    unfolding ts by (rule map_update_keep) (rule h(2))
  have len: "length (Tasks (wf s')) = length (Tasks (wf s))"
    by (simp add: ts)
  have id_nth: "t_ID (Tasks (wf s') ! j) = t_ID (Tasks (wf s) ! j)" if "j < length (Tasks (wf s))" for j
    using that ids len by (metis nth_map)
  have dep_nth: "t_Dependencies (Tasks (wf s') ! j) = t_Dependencies (Tasks (wf s) ! j)"
    if "j < length (Tasks (wf s))" for j
    using that deps len by (metis nth_map)
  have wlen: "length (workers s') = length (workers s)"
    by (simp add: ws)
  have wt: "w_task (workers s' ! j) = w_task (workers s ! j)" if "j < length (workers s)" for j
    using that by (cases "j = k") (simp_all add: ws)
  have wp: "w_phase (workers s' ! j) = w_phase (workers s ! j)" if "j < length (workers s)" "j \<noteq> k" for j
    using that by (simp add: ws)
  have wpk: "w_phase (workers s' ! k) = p"
    using k by (simp add: ws)
  have "same_tasks w0 s'"
    using st by (simp add: same_tasks_def ids deps fi)
  moreover have "workers_ready s'"
    unfolding workers_ready_def
  proof (intro allI impI)
    fix j assume "j < length (workers s')"
    then have j: "j < length (workers s)" by (simp add: wlen)
    with rd have r: "w_task (workers s ! j) < length (Tasks (wf s))"
      "list_all (completedTasks s) (t_Dependencies (Tasks (wf s) ! w_task (workers s ! j)))"
      by (simp_all add: workers_ready_def)
    then show "w_task (workers s' ! j) < length (Tasks (wf s')) \<and>
        list_all (completedTasks s') (t_Dependencies (Tasks (wf s') ! w_task (workers s' ! j)))"
      by (simp add: wt[OF j] len ct dep_nth)
  qed
  moreover have "marks_finished s'"
    unfolding marks_finished_def
  proof (intro conjI allI impI)
    fix d assume "completedTasks s' d"
    with mf ct show "finished (wf s') d" by (simp add: marks_finished_def fin)
  next
    fix d assume "monitor s' = Received d"
    with mf mo show "finished (wf s') d" by (simp add: marks_finished_def fin)
  next
    fix j assume j': "j < length (workers s')" and sj: "w_phase (workers s' ! j) = Sending"
    then have j: "j < length (workers s)" by (simp add: wlen)
    with rd have r: "w_task (workers s ! j) < length (Tasks (wf s))"
      by (simp add: workers_ready_def)
    have e: "t_ID (Tasks (wf s') ! w_task (workers s' ! j))
        = t_ID (Tasks (wf s) ! w_task (workers s ! j))"
      using wt[OF j] id_nth[OF r] by simp
    have "finished (wf s') (t_ID (Tasks (wf s) ! w_task (workers s ! j)))"
    proof (cases "j = k")
      case True
      with sj wpk have "p = Sending" by simp
      from snd[OF this] True show ?thesis by simp
    next
      case False
      with sj j have "w_phase (workers s ! j) = Sending" by (simp add: wp)
      with mf j have "finished (wf s) (t_ID (Tasks (wf s) ! w_task (workers s ! j)))"
        by (simp add: marks_finished_def)
      from fin[OF this] show ?thesis .
    qed
    then show "finished (wf s') (t_ID (Tasks (wf s') ! w_task (workers s' ! j)))"
      by (simp only: e)
  qed
  moreover have "marks_known w0 s'"
    unfolding marks_known_def
  proof (intro conjI allI impI)
    fix d assume "completedTasks s' d"
    with mk ct show "d \<in> set (map t_ID (Tasks w0))" by (simp add: marks_known_def)
  next
    fix d assume "monitor s' = Received d"
    with mk mo show "d \<in> set (map t_ID (Tasks w0))" by (simp add: marks_known_def)
  next
    fix i assume i: "i < length (Tasks w0)"
      and no: "\<forall>j<length (workers s'). w_task (workers s' ! j) \<noteq> i"
    then have no': "\<forall>j<length (workers s). w_task (workers s ! j) \<noteq> i"
      using wt wlen by simp
    with mk i have "Tasks (wf s) ! i = Tasks w0 ! i" by (simp add: marks_known_def)
    moreover from no' k have "?i \<noteq> i" by blast
    ultimately show "Tasks (wf s') ! i = Tasks w0 ! i" by (simp add: ts)
  qed
  moreover have "recorded_by_workers w0 s'"
    unfolding recorded_by_workers_def
  proof (intro allI impI)
    fix d assume ch: "Results (wf s') d \<noteq> Results w0 d \<or> Errors (wf s') d \<noteq> Errors w0 d"
    from rd k have i: "?i < length (Tasks (wf s))" by (simp add: workers_ready_def)
    have len0: "length (Tasks w0) = length (Tasks (wf s))"
      using st unfolding same_tasks_def by (metis length_map)
    have id0: "t_ID (Tasks w0 ! ?i) = t_ID (Tasks (wf s) ! ?i)"
      using st i len0 unfolding same_tasks_def by (metis nth_map)
    have "\<exists>j<length (workers s). t_ID (Tasks w0 ! w_task (workers s ! j)) = d"
    proof (cases "d = t_ID (Tasks (wf s) ! ?i)")
      case True
      with k id0 show ?thesis by blast
    next
      case False
      from frame[OF this] ch
      have "Results (wf s) d \<noteq> Results w0 d \<or> Errors (wf s) d \<noteq> Errors w0 d" by simp
      with rw show ?thesis by (simp add: recorded_by_workers_def)
    qed
    then obtain j where j: "j < length (workers s)" "t_ID (Tasks w0 ! w_task (workers s ! j)) = d"
      by blast
    then show "\<exists>j<length (workers s'). t_ID (Tasks w0 ! w_task (workers s' ! j)) = d"
      using wt[OF j(1)] wlen by auto
  qed
  moreover have "returned_value w0 s'"
    unfolding returned_value_def
  proof (intro allI impI)
    fix r assume "main s' = Returned r"
    then have m: "main s = Returned r" by (simp add: ma)
    show "if FinalTaskID w0 = [] then r = Inr []
          else (\<exists>e. r = Inl (''final task failed: '' @ e) \<and> Errors (wf s') (FinalTaskID w0) \<noteq> None) \<or>
               (\<exists>x. r = Inr x \<and> Results (wf s') (FinalTaskID w0) \<noteq> None) \<or>
               r = Inl ''final task result not found''"
    proof (cases "FinalTaskID w0 = []")
      case True
      with rv m show ?thesis by (simp add: returned_value_def)
    next
      case False
      with rv m
      have "(\<exists>e. r = Inl (''final task failed: '' @ e) \<and> Errors (wf s) (FinalTaskID w0) \<noteq> None) \<or>
            (\<exists>x. r = Inr x \<and> Results (wf s) (FinalTaskID w0) \<noteq> None) \<or>
            r = Inl ''final task result not found''"
        by (simp add: returned_value_def)
      with False res[of "FinalTaskID w0"] err[of "FinalTaskID w0"] show ?thesis by auto
    qed
  qed
  ultimately show ?thesis by (simp add: orch_inv_def)
qed

lemma quiet_spawn:
  assumes "i < length (Tasks (wf s))"
    and "list_all (completedTasks s) (t_Dependencies (Tasks (wf s) ! i))"
    and "wf s' = wf s" and "workers s' = workers s @ [\<lparr>w_task = i, w_phase = Spawned\<rparr>]"
    and "completedTasks s' = completedTasks s"
    and "\<And>d. monitor s' = Received d \<Longrightarrow> monitor s = Received d"
    and "\<And>r. main s' = Returned r \<Longrightarrow> main s = Returned r"
  shows "quiet_step s s'"
  using assms by (auto simp: quiet_step_def nth_append)

lemma quiet_same_workers:
  assumes "wf s' = wf s" and "workers s' = workers s"
    and "\<And>d. completedTasks s d \<Longrightarrow> completedTasks s' d"
    and "\<And>d. completedTasks s' d \<Longrightarrow> completedTasks s d \<or> monitor s = Received d"
    and "\<And>d. monitor s' = Received d \<Longrightarrow> monitor s = Received d"
    and "\<And>r. main s' = Returned r \<Longrightarrow> main s = Returned r \<or> r = final_result (wf s)"
  shows "quiet_step s s'"
  using assms by (auto simp: quiet_step_def)

lemma step_MainStep:
  assumes "step registry s MainStep = Some s'"
  shows "quiet_step s s'"
proof (cases "main s")
  case (Starting i)
  show ?thesis
  proof (cases "i < length (Tasks (wf s)) \<and> length (t_Dependencies (task_at s i)) = 0")
    case True
    with assms Starting have s': "s' = (spawn i s)\<lparr>main := Starting (i + 1)\<rparr>"
      by simp
    from True show ?thesis
      by (intro quiet_spawn[of i]) (simp_all add: s' orch_parts task_at_def)
  next
    case False
    with assms Starting have "s' = s\<lparr>main := Starting (i + 1)\<rparr> \<or> s' = s\<lparr>main := Waiting\<rparr>"
      by (auto split: if_splits)
    then show ?thesis by (auto intro!: quiet_same_workers)
  qed
next
  case Waiting
  with assms have "s' = s\<lparr>main := Returned (final_result (wf s)), cancelled := True\<rparr> \<or>
      s' = s\<lparr>main := Blocked\<rparr>"
    by (auto split: if_splits)
  then show ?thesis by (auto intro!: quiet_same_workers)
next
  case Blocked
  with assms show ?thesis by simp
next
  case Released
  with assms have "s' = s\<lparr>main := Returned (final_result (wf s)), cancelled := True\<rparr> \<or>
      s' = s\<lparr>main := Crashed\<rparr>"
    by (auto split: if_splits)
  then show ?thesis by (auto intro!: quiet_same_workers)
next
  case (Returned r)
  with assms show ?thesis by simp
next
  case Crashed
  with assms show ?thesis by simp
qed

lemma step_MonitorStep:
  assumes "step registry s MonitorStep = Some s'"
  shows "quiet_step s s'"
proof (cases "monitor s")
  case Selecting
  with assms show ?thesis by (simp split: if_splits)
next
  case (Received taskID)
  let ?s1 = "s\<lparr>completedTasks := (completedTasks s)(taskID := True)\<rparr>"
  from assms Received
  have "s' = ?s1\<lparr>cancelled := True, monitor := Exited\<rparr> \<or> s' = ?s1\<lparr>monitor := Scanning 0\<rparr>"
    by (auto simp: Let_def split: if_splits)
  with Received show ?thesis by (auto intro!: quiet_same_workers)
next
  case (Scanning i)
  show ?thesis
  proof (cases "i < length (Tasks (wf s)) \<and> t_Status (task_at s i) = TaskPending \<and>
                allDepsCompleted s (task_at s i)")
    case True
    with assms Scanning have s': "s' = (spawn i s)\<lparr>monitor := Scanning (i + 1)\<rparr>"
      by (simp split: if_splits)
    from True show ?thesis
      by (intro quiet_spawn[of i]) (simp_all add: s' orch_parts task_at_def allDepsCompleted_def)
  next
    case False
    with assms Scanning
    have "s' = s\<lparr>monitor := Scanning (i + 1)\<rparr> \<or> s' = s\<lparr>monitor := Selecting\<rparr>"
      by (auto split: if_splits)
    then show ?thesis by (auto intro!: quiet_same_workers)
  qed
next
  case Exited
  with assms show ?thesis by (simp split: if_splits)
qed

lemma step_Receive:
  assumes "step registry s (Receive k) = Some s'"
  shows "quiet_step s s'"
proof -
  from assms have k: "k < length (workers s)" "w_phase (workers s ! k) = Sending"
    and s': "s' = (set_phase k Delivered s)\<lparr>monitor := Received (t_ID (task_at s (w_task (workers s ! k))))\<rparr>"
    by (auto split: if_splits)
  have "\<exists>j<length (workers s). w_phase (workers s ! j) = Sending \<and>
      t_ID (task_at s (w_task (workers s ! k))) = t_ID (Tasks (wf s) ! w_task (workers s ! j))"
    using k by (auto simp: task_at_def)
  then show ?thesis
    unfolding quiet_step_def s' using k
    by (auto simp: orch_parts nth_list_update)
qed

lemma step_WorkerExit:
  assumes "step registry s (WorkerExit k) = Some s'"
  shows "quiet_step s s'"
proof -
  from assms have k: "k < length (workers s)"
    and s': "s' = set_phase k Finished s \<or> s' = (set_phase k Finished s)\<lparr>main := Released\<rparr>"
    by (auto simp: Let_def split: if_splits)
  from s' show ?thesis
  proof
    assume "s' = set_phase k Finished s"
    then show ?thesis
      unfolding quiet_step_def using k by (auto simp: orch_parts nth_list_update)
  next
    assume "s' = (set_phase k Finished s)\<lparr>main := Released\<rparr>"
    then show ?thesis
      unfolding quiet_step_def using k by (auto simp: orch_parts nth_list_update)
  qed
qed

lemma step_shape:
  assumes "step registry s e = Some s'" and "workers_ready s"
  shows "quiet_step s s' \<or> (\<exists>k. worker_write s s' k)"
proof (cases e)
  case MainStep
  with assms show ?thesis by (simp add: step_MainStep)
next
  case (WorkerStart k)
  with assms step_WorkerStart[of registry s k s'] show ?thesis by blast
next
  case (WorkerReturn k outcome)
  with assms step_WorkerReturn[of registry s k outcome s'] show ?thesis by blast
next
  case (Receive k)
  with assms show ?thesis by (simp add: step_Receive)
next
  case (WorkerExit k)
  with assms show ?thesis by (simp add: step_WorkerExit)
next
  case MonitorStep
  with assms show ?thesis by (simp add: step_MonitorStep)
next
  case MonitorDone
  with assms have "s' = s\<lparr>monitor := Exited\<rparr>" by (auto split: if_splits)
  then show ?thesis by (auto intro!: quiet_same_workers)
next
  case CancelParent
  with assms have "s' = s\<lparr>cancelled := True\<rparr>" by (auto split: if_splits)
  then show ?thesis by (auto intro!: quiet_same_workers)
qed

lemma quiet_step_inv:
  assumes q: "quiet_step s s'" and inv: "orch_inv w0 s"
  shows "orch_inv w0 s'"
proof -
  from q have w: "wf s' = wf s" and wl: "length (workers s) \<le> length (workers s')"
    and old: "\<And>j. j < length (workers s) \<Longrightarrow> w_task (workers s' ! j) = w_task (workers s ! j)"
    and olds: "\<And>j. j < length (workers s) \<Longrightarrow> w_phase (workers s' ! j) = Sending
                 \<Longrightarrow> w_phase (workers s ! j) = Sending"
    and new: "\<And>j. j < length (workers s') \<Longrightarrow> length (workers s) \<le> j \<Longrightarrow>
                 w_phase (workers s' ! j) = Spawned \<and> w_task (workers s' ! j) < length (Tasks (wf s)) \<and>
                 list_all (completedTasks s) (t_Dependencies (Tasks (wf s) ! w_task (workers s' ! j)))"
    and mono: "\<And>d. completedTasks s d \<Longrightarrow> completedTasks s' d"
    and mark: "\<And>d. completedTasks s' d \<Longrightarrow> completedTasks s d \<or> monitor s = Received d"
    and recv: "\<And>d. monitor s' = Received d \<Longrightarrow> monitor s = Received d \<or>
                 (\<exists>j<length (workers s). w_phase (workers s ! j) = Sending \<and>
                    d = t_ID (Tasks (wf s) ! w_task (workers s ! j)))"
    and ret: "\<And>r. main s' = Returned r \<Longrightarrow> main s = Returned r \<or> r = final_result (wf s)"
    unfolding quiet_step_def by blast+
  from inv have st: "same_tasks w0 s" and rd: "workers_ready s" and mf: "marks_finished s"
    and mk: "marks_known w0 s" and rw: "recorded_by_workers w0 s" and rv: "returned_value w0 s"
    by (simp_all add: orch_inv_def)
  have up: "list_all (completedTasks s') ds" if "list_all (completedTasks s) ds" for ds
    using that mono by (auto simp: list_all_iff)
  have "same_tasks w0 s'"
    using st by (simp add: same_tasks_def w)
  moreover have "workers_ready s'"
    unfolding workers_ready_def
  proof (intro allI impI)
    fix j assume j': "j < length (workers s')"
    show "w_task (workers s' ! j) < length (Tasks (wf s')) \<and>
        list_all (completedTasks s') (t_Dependencies (Tasks (wf s') ! w_task (workers s' ! j)))"
    proof (cases "j < length (workers s)")
      case True
      with rd have "w_task (workers s ! j) < length (Tasks (wf s))"
        "list_all (completedTasks s) (t_Dependencies (Tasks (wf s) ! w_task (workers s ! j)))"
        by (simp_all add: workers_ready_def)
      then show ?thesis by (simp add: old[OF True] w up)
    next
      case False
      with new[OF j'] show ?thesis by (simp add: w up)
    qed
  qed
  moreover have "marks_finished s'"
    unfolding marks_finished_def
  proof (intro conjI allI impI)
    fix d assume "completedTasks s' d"
    from mark[OF this] mf show "finished (wf s') d" by (auto simp: marks_finished_def w)
  next
    fix d assume "monitor s' = Received d"
    from recv[OF this] mf show "finished (wf s') d" by (auto simp: marks_finished_def w)
  next
    fix j assume j': "j < length (workers s')" and sj: "w_phase (workers s' ! j) = Sending"
    have j: "j < length (workers s)"
    proof (rule ccontr)
      assume "\<not> j < length (workers s)"
      with new[OF j'] sj show False by simp
    qed
    from olds[OF j sj] mf j
    have "finished (wf s) (t_ID (Tasks (wf s) ! w_task (workers s ! j)))"
      by (simp add: marks_finished_def)
    then show "finished (wf s') (t_ID (Tasks (wf s') ! w_task (workers s' ! j)))"
      by (simp add: w old[OF j])
  qed
  moreover have "marks_known w0 s'"
    unfolding marks_known_def
  proof (intro conjI allI impI)
    fix d assume "completedTasks s' d"
    from mark[OF this] mk show "d \<in> set (map t_ID (Tasks w0))" by (auto simp: marks_known_def)
  next
    fix d assume "monitor s' = Received d"
    from recv[OF this] show "d \<in> set (map t_ID (Tasks w0))"
    proof
      assume "monitor s = Received d"
      with mk show ?thesis by (simp add: marks_known_def)
    next
      assume "\<exists>j<length (workers s). w_phase (workers s ! j) = Sending \<and>
                    d = t_ID (Tasks (wf s) ! w_task (workers s ! j))"
      then obtain j where j: "j < length (workers s)"
        and d: "d = t_ID (Tasks (wf s) ! w_task (workers s ! j))" by blast
      from rd j have "w_task (workers s ! j) < length (Tasks (wf s))"
        by (simp add: workers_ready_def)
      then have "d \<in> set (map t_ID (Tasks (wf s)))"
        unfolding d by (simp add: nth_mem)
      with st show ?thesis by (simp add: same_tasks_def)
    qed
  next
    fix i assume i: "i < length (Tasks w0)"
      and no: "\<forall>j<length (workers s'). w_task (workers s' ! j) \<noteq> i"
    have "\<forall>j<length (workers s). w_task (workers s ! j) \<noteq> i"
    proof (intro allI impI)
      fix j assume j: "j < length (workers s)"
      with wl no have "w_task (workers s' ! j) \<noteq> i" by simp
      then show "w_task (workers s ! j) \<noteq> i" by (simp add: old[OF j])
    qed
    with mk i show "Tasks (wf s') ! i = Tasks w0 ! i" by (simp add: marks_known_def w)
  qed
  moreover have "recorded_by_workers w0 s'"
    unfolding recorded_by_workers_def
  proof (intro allI impI)
    fix d assume "Results (wf s') d \<noteq> Results w0 d \<or> Errors (wf s') d \<noteq> Errors w0 d"
    with rw obtain j where j: "j < length (workers s)" "t_ID (Tasks w0 ! w_task (workers s ! j)) = d"
      unfolding recorded_by_workers_def w by blast
    with wl old[OF j(1)]
    show "\<exists>j<length (workers s'). t_ID (Tasks w0 ! w_task (workers s' ! j)) = d"
      by (intro exI[of _ j]) simp
  qed
  moreover have "returned_value w0 s'"
    unfolding returned_value_def
  proof (intro allI impI)
    fix r assume "main s' = Returned r"
    from ret[OF this]
    show "if FinalTaskID w0 = [] then r = Inr []
          else (\<exists>e. r = Inl (''final task failed: '' @ e) \<and> Errors (wf s') (FinalTaskID w0) \<noteq> None) \<or>
               (\<exists>x. r = Inr x \<and> Results (wf s') (FinalTaskID w0) \<noteq> None) \<or>
               r = Inl ''final task result not found''"
    proof
      assume "main s = Returned r"
      with rv show ?thesis unfolding returned_value_def w by blast
    next
      assume r: "r = final_result (wf s)"
      from st have f: "FinalTaskID (wf s) = FinalTaskID w0" by (simp add: same_tasks_def)
      show ?thesis
        unfolding r w by (simp add: final_result_def f split: option.splits)
    qed
  qed
  ultimately show ?thesis by (simp add: orch_inv_def)
qed

lemma orch_inv_init: "orch_inv w (init w)"
  by (simp add: orch_inv_def same_tasks_def workers_ready_def marks_finished_def marks_known_def
      recorded_by_workers_def returned_value_def init_def)

lemma orch_inv_step:
  assumes "orch_inv w0 s" and "step registry s e = Some s'"
  shows "orch_inv w0 s'"
proof -
  from assms(1) have "workers_ready s" by (simp add: orch_inv_def)
  from step_shape[OF assms(2) this] show ?thesis
    using quiet_step_inv[OF _ assms(1)] worker_write_inv[OF _ assms(1)] by blast
qed

lemma orch_inv_run:
  "orch_inv w0 s \<Longrightarrow> run registry s es = Some s' \<Longrightarrow> orch_inv w0 s'"
proof (induction es arbitrary: s)
  case Nil
  then show ?case by simp
next
  case (Cons e es)
  then obtain s1 where s1: "step registry s e = Some s1" "run registry s1 es = Some s'"
    by (auto split: option.splits)
  from Cons.IH[OF orch_inv_step[OF Cons.prems(1) s1(1)] s1(2)] show ?case .
qed

subsection \<open>The wait group\<close>

lemma wg_counter_pos:
  "k < length (workers s) \<Longrightarrow> w_phase (workers s ! k) \<noteq> Finished \<Longrightarrow> wg_counter s \<noteq> 0"
  using nth_mem[of k "workers s"] by (auto simp: wg_counter_def filter_empty_conv)

lemma worker_write_blocked:
  assumes "worker_write s s' k"
  shows "blocked_waits s'"
proof -
  from assms obtain p where k: "k < length (workers s)"
    and ws: "workers s' = (workers s)[k := (workers s ! k)\<lparr>w_phase := p\<rparr>]" and p: "p \<noteq> Finished"
    unfolding worker_write_def by blast
  from k p have "k < length (workers s')" "w_phase (workers s' ! k) \<noteq> Finished"
    by (simp_all add: ws)
  then have "wg_counter s' \<noteq> 0" by (rule wg_counter_pos)
  then show ?thesis by (simp add: blocked_waits_def)
qed

lemma blocked_step:
  assumes st: "step registry s e = Some s'" and rd: "workers_ready s" and bl: "blocked_waits s"
  shows "blocked_waits s'"
proof (cases e)
  case MainStep
  with st bl show ?thesis
    by (auto simp: blocked_waits_def wg_counter_def split: main_point.splits if_splits)
next
  case (WorkerStart k)
  with st have "step registry s (WorkerStart k) = Some s'" by simp
  from worker_write_blocked[OF step_WorkerStart[OF this rd]] show ?thesis .
next
  case (WorkerReturn k outcome)
  with st have "step registry s (WorkerReturn k outcome) = Some s'" by simp
  from worker_write_blocked[OF step_WorkerReturn[OF this rd]] show ?thesis .
next
  case (Receive k)
  with st have k: "k < length (workers s)"
    and s': "s' = (set_phase k Delivered s)\<lparr>monitor := Received (t_ID (task_at s (w_task (workers s ! k))))\<rparr>"
    by (auto split: if_splits)
  from k have "k < length (workers s')" "w_phase (workers s' ! k) \<noteq> Finished"
    by (simp_all add: s' orch_parts)
  then have "wg_counter s' \<noteq> 0" by (rule wg_counter_pos)
  then show ?thesis by (simp add: blocked_waits_def)
next
  case (WorkerExit k)
  with st show ?thesis
    by (auto simp: blocked_waits_def Let_def orch_parts split: if_splits)
next
  case MonitorStep
  with st bl show ?thesis
    by (auto simp: blocked_waits_def wg_counter_def spawn_def Let_def
        split: monitor_point.splits if_splits)
next
  case MonitorDone
  with st bl show ?thesis
    by (auto simp: blocked_waits_def wg_counter_def split: if_splits)
next
  case CancelParent
  with st bl show ?thesis
    by (auto simp: blocked_waits_def wg_counter_def split: if_splits)
qed

lemma blocked_run:
  "orch_inv w0 s \<Longrightarrow> blocked_waits s \<Longrightarrow> run registry s es = Some s' \<Longrightarrow> blocked_waits s'"
proof (induction es arbitrary: s)
  case Nil
  then show ?case by simp
next
  case (Cons e es)
  then obtain s1 where s1: "step registry s e = Some s1" "run registry s1 es = Some s'"
    by (auto split: option.splits)
  from Cons.prems(1) have rd: "workers_ready s" by (simp add: orch_inv_def)
  from Cons.IH[OF orch_inv_step[OF Cons.prems(1) s1(1)] blocked_step[OF s1(1) rd Cons.prems(2)] s1(2)]
  show ?case .
qed

lemma blocked_init: "blocked_waits (init w)"
  by (simp add: blocked_waits_def init_def)

lemma after_return:
  "map_option (\<lambda>s. (main s, statuses s)) (Some (s\<lparr>main := m, cancelled := c\<rparr>))
     = Some (m, statuses s)"
  by (simp add: statuses_def)

subsection \<open>The input of a task\<close>

lemma fold_append_concat:
  "fold (\<lambda>d acc. case R d of None \<Rightarrow> acc | Some r \<Rightarrow> acc @ g d r) ds a
     = a @ concat (map (\<lambda>d. case R d of None \<Rightarrow> [] | Some r \<Rightarrow> g d r) ds)"
  by (induction ds arbitrary: a) (auto split: option.splits)

lemma compose_input_concat:
  "compose_input w t
     = t_Input t @ concat (map (\<lambda>d. case Results w d of
                                        None \<Rightarrow> []
                                      | Some r \<Rightarrow> NL @ NL @ ''Result from '' @ d @ '': '' @ r)
                               (t_Dependencies t))"
  unfolding compose_input_def by (rule fold_append_concat)

text \<open>
  Claim C1, amended.  Along every schedule, when the worker of a task starts, every
  declared dependency of the task has finished: its id is marked in \<open>completedTasks\<close>,
  it is the id of a task of the workflow, and a result or an error is recorded for it.
  In that step the task becomes \<open>Running\<close> and its agent is called with the composed
  input, or, when the agent is not registered, the task becomes \<open>Failed\<close> and its
  worker is at the point of sending its id.  The composed input is the input of the task followed, for each declared
  dependency in order that has a recorded result, by an empty line and
  \<open>Result from\<close>, the id, a colon and the result; a dependency with no recorded result
  adds nothing.  A failed dependency counts as finished: the monitor marks every id it
  receives, whatever the outcome, and when it looks at a \<open>Pending\<close> task whose
  dependencies are all marked it spawns a worker for it.
\<close>

theorem started_task_has_finished_dependencies:
  assumes "run registry (init w) es = Some s"
  shows "(\<forall>k s'. step registry s (WorkerStart k) = Some s' \<longrightarrow>
            (\<forall>d\<in>set (t_Dependencies (Tasks (wf s) ! w_task (workers s ! k))).
               completedTasks s d \<and> finished (wf s) d \<and> d \<in> set (map t_ID (Tasks w))) \<and>
            (if registry (t_AgentID (Tasks (wf s) ! w_task (workers s ! k)))
             then t_Status (Tasks (wf s') ! w_task (workers s ! k)) = TaskRunning \<and>
                  w_phase (workers s' ! k)
                    = Calling (compose_input (wf s) (Tasks (wf s) ! w_task (workers s ! k)))
             else t_Status (Tasks (wf s') ! w_task (workers s ! k)) = TaskFailed \<and>
                  w_phase (workers s' ! k) = Sending)) \<and>
         (\<forall>t. compose_input (wf s) t
                = t_Input t @ concat (map (\<lambda>d. case Results (wf s) d of
                                                   None \<Rightarrow> []
                                                 | Some r \<Rightarrow> NL @ NL @ ''Result from '' @ d @ '': '' @ r)
                                          (t_Dependencies t))) \<and>
         (\<forall>d. main s \<noteq> Crashed \<and> monitor s = Received d \<longrightarrow>
              (\<exists>s'. step registry s MonitorStep = Some s' \<and> completedTasks s' d \<and> wf s' = wf s)) \<and>
         (\<forall>i. main s \<noteq> Crashed \<and> monitor s = Scanning i \<and> i < length (Tasks (wf s)) \<and>
              t_Status (Tasks (wf s) ! i) = TaskPending \<and>
              list_all (completedTasks s) (t_Dependencies (Tasks (wf s) ! i)) \<longrightarrow>
              map_option workers (step registry s MonitorStep)
                = Some (workers s @ [\<lparr>w_task = i, w_phase = Spawned\<rparr>]))"
proof (intro conjI allI impI)
  fix k s'
  assume start: "step registry s (WorkerStart k) = Some s'"
  let ?i = "w_task (workers s ! k)"
  let ?s1 = "update_task ?i (\<lambda>t. t\<lparr>t_Status := TaskRunning\<rparr>) s"
  from orch_inv_run[OF orch_inv_init assms] have inv: "orch_inv w s" .
  then have rd: "workers_ready s" and mf: "marks_finished s" and mk: "marks_known w s"
    by (simp_all add: orch_inv_def)
  from start have k: "k < length (workers s)" "w_phase (workers s ! k) = Spawned"
    and mc: "main s \<noteq> Crashed"
    by (auto split: if_splits)
  with rd have i: "?i < length (Tasks (wf s))"
    and deps: "list_all (completedTasks s) (t_Dependencies (Tasks (wf s) ! ?i))"
    by (simp_all add: workers_ready_def)
  show "\<forall>d\<in>set (t_Dependencies (Tasks (wf s) ! ?i)).
            completedTasks s d \<and> finished (wf s) d \<and> d \<in> set (map t_ID (Tasks w))"
    using deps mf mk by (auto simp: list_all_iff marks_finished_def marks_known_def)
  have ag: "t_AgentID (task_at ?s1 ?i) = t_AgentID (Tasks (wf s) ! ?i)"
    using i by (simp add: task_at_def orch_parts)
  have ci: "compose_input (wf ?s1) (task_at ?s1 ?i) = compose_input (wf s) (Tasks (wf s) ! ?i)"
    using i by (simp add: compose_input_def task_at_def orch_parts)
  show "if registry (t_AgentID (Tasks (wf s) ! ?i))
        then t_Status (Tasks (wf s') ! ?i) = TaskRunning \<and>
             w_phase (workers s' ! k) = Calling (compose_input (wf s) (Tasks (wf s) ! ?i))
        else t_Status (Tasks (wf s') ! ?i) = TaskFailed \<and> w_phase (workers s' ! k) = Sending"
  proof (cases "registry (t_AgentID (Tasks (wf s) ! ?i))")
    case True
    with start k mc have s': "s' = set_phase k (Calling (compose_input (wf ?s1) (task_at ?s1 ?i))) ?s1"
      by (simp add: Let_def ag)
    from True k i show ?thesis
      unfolding s' ci by (simp add: orch_parts)
  next
    case False
    with start k mc
    have s': "s' = set_phase k Sending
                     (record_error ?i (''agent not found: '' @ t_AgentID (task_at ?s1 ?i)) ?s1)"
      by (simp add: Let_def ag)
    from False k i show ?thesis
      unfolding s' by (simp add: orch_parts)
  qed
next
  fix t
  show "compose_input (wf s) t
          = t_Input t @ concat (map (\<lambda>d. case Results (wf s) d of
                                             None \<Rightarrow> []
                                           | Some r \<Rightarrow> NL @ NL @ ''Result from '' @ d @ '': '' @ r)
                                    (t_Dependencies t))"
    by (rule compose_input_concat)
next
  fix d
  assume "main s \<noteq> Crashed \<and> monitor s = Received d"
  then show "\<exists>s'. step registry s MonitorStep = Some s' \<and> completedTasks s' d \<and> wf s' = wf s"
    by (auto simp: Let_def)
next
  fix i
  assume "main s \<noteq> Crashed \<and> monitor s = Scanning i \<and> i < length (Tasks (wf s)) \<and>
              t_Status (Tasks (wf s) ! i) = TaskPending \<and>
              list_all (completedTasks s) (t_Dependencies (Tasks (wf s) ! i))"
  then show "map_option workers (step registry s MonitorStep)
                = Some (workers s @ [\<lparr>w_task = i, w_phase = Spawned\<rparr>])"
    by (auto simp: task_at_def allDepsCompleted_def orch_parts)
qed

theorem started_task_has_finished_dependencies_witness:
  "run any_agent (init wf_chain) scanned_schedule \<noteq> None \<and>
   step any_agent (the (run any_agent (init wf_chain) scanned_schedule)) (WorkerStart 1) \<noteq> None \<and>
   t_Dependencies (Tasks wf_chain ! 1) = [''T1''] \<and>
   finished (wf (the (run any_agent (init wf_chain) scanned_schedule))) ''T1'' \<and>
   Errors (wf (the (run any_agent (init wf_chain) scanned_schedule))) ''T1''
     = Some ''agent execution failed: boom'' \<and>
   w_phase (workers (the (step any_agent (the (run any_agent (init wf_chain) scanned_schedule))
                            (WorkerStart 1))) ! 1)
     = Calling ''second'' \<and>
   monitor (the (run any_agent (init wf_chain) received_schedule)) = Received ''T1'' \<and>
   (\<exists>s'. step any_agent (the (run any_agent (init wf_chain) received_schedule)) MonitorStep = Some s' \<and>
         completedTasks s' ''T1'') \<and>
   monitor (the (run any_agent (init wf_chain) marked_schedule)) = Scanning 1 \<and>
   map_option workers (step any_agent (the (run any_agent (init wf_chain) marked_schedule)) MonitorStep)
     = Some [\<lparr>w_task = 0, w_phase = Delivered\<rparr>, \<lparr>w_task = 1, w_phase = Spawned\<rparr>]"
proof -
  let ?S = "the (run any_agent (init wf_chain) scanned_schedule)"
  let ?M = "the (run any_agent (init wf_chain) marked_schedule)"
  let ?R = "the (run any_agent (init wf_chain) received_schedule)"
  have r: "run any_agent (init wf_chain) scanned_schedule = Some ?S"
    by (simp add: orch_eval wf_chain_def any_agent_def scanned_schedule_def marked_schedule_def)
  have m: "run any_agent (init wf_chain) marked_schedule = Some ?M"
    by (simp add: orch_eval wf_chain_def any_agent_def marked_schedule_def)
  have rc: "run any_agent (init wf_chain) received_schedule = Some ?R"
    by (simp add: orch_eval wf_chain_def any_agent_def received_schedule_def)
  have st: "step any_agent ?S (WorkerStart 1) = Some (the (step any_agent ?S (WorkerStart 1)))"
    by (simp add: orch_eval wf_chain_def any_agent_def scanned_schedule_def marked_schedule_def)
  have facts: "w_task (workers ?S ! 1) = 1" "Tasks (wf ?S) ! 1 = Tasks wf_chain ! 1"
    "t_Dependencies (Tasks wf_chain ! 1) = [''T1'']"
    "Errors (wf ?S) ''T1'' = Some ''agent execution failed: boom''"
    by (simp_all add: orch_eval wf_chain_def any_agent_def scanned_schedule_def marked_schedule_def)
  have more: "t_Input (Tasks wf_chain ! 1) = ''second''" "Results (wf ?S) ''T1'' = None"
    "any_agent (t_AgentID (Tasks wf_chain ! 1))"
    by (simp_all add: orch_eval wf_chain_def any_agent_def scanned_schedule_def marked_schedule_def)
  have recv: "main ?R \<noteq> Crashed \<and> monitor ?R = Received ''T1''"
    by (simp add: orch_eval wf_chain_def any_agent_def received_schedule_def)
  have scan: "main ?M \<noteq> Crashed \<and> monitor ?M = Scanning 1 \<and> 1 < length (Tasks (wf ?M)) \<and>
      t_Status (Tasks (wf ?M) ! 1) = TaskPending \<and>
      list_all (completedTasks ?M) (t_Dependencies (Tasks (wf ?M) ! 1))"
    by (simp add: orch_eval wf_chain_def any_agent_def marked_schedule_def)
  have ws: "workers ?M = [\<lparr>w_task = 0, w_phase = Delivered\<rparr>]"
    by (simp add: orch_eval wf_chain_def any_agent_def marked_schedule_def)
  note t = started_task_has_finished_dependencies[OF r]
  note started = t[THEN conjunct1, rule_format, OF st]
  have "\<forall>d\<in>set (t_Dependencies (Tasks (wf ?S) ! w_task (workers ?S ! 1))).
      completedTasks ?S d \<and> finished (wf ?S) d \<and> d \<in> set (map t_ID (Tasks wf_chain))"
    by (rule started[THEN conjunct1])
  then have c4: "finished (wf ?S) ''T1''"
    unfolding facts by simp
  from started[THEN conjunct2]
  have "w_phase (workers (the (step any_agent ?S (WorkerStart 1))) ! 1)
      = Calling (compose_input (wf ?S) (Tasks wf_chain ! 1))"
    unfolding facts using more(3) by simp
  also have "compose_input (wf ?S) (Tasks wf_chain ! 1) = ''second''"
    unfolding t[THEN conjunct2, THEN conjunct1, rule_format] facts more(1) by (simp add: more(2))
  finally have c6: "w_phase (workers (the (step any_agent ?S (WorkerStart 1))) ! 1) = Calling ''second''" .
  have c8: "\<exists>s'. step any_agent ?R MonitorStep = Some s' \<and> completedTasks s' ''T1''"
    using started_task_has_finished_dependencies[OF rc, THEN conjunct2, THEN conjunct2,
        THEN conjunct1, rule_format, OF recv]
    by blast
  have "map_option workers (step any_agent ?M MonitorStep)
     = Some (workers ?M @ [\<lparr>w_task = 1, w_phase = Spawned\<rparr>])"
    by (rule started_task_has_finished_dependencies[OF m, THEN conjunct2, THEN conjunct2,
          THEN conjunct2, rule_format, OF scan])
  then have c10: "map_option workers (step any_agent ?M MonitorStep)
     = Some [\<lparr>w_task = 0, w_phase = Delivered\<rparr>, \<lparr>w_task = 1, w_phase = Spawned\<rparr>]"
    unfolding ws by simp
  have c1: "run any_agent (init wf_chain) scanned_schedule \<noteq> None"
    and c2: "step any_agent ?S (WorkerStart 1) \<noteq> None"
    by (simp_all add: orch_eval wf_chain_def any_agent_def scanned_schedule_def marked_schedule_def)
  from c1 c2 facts(3) c4 facts(4) c6 recv c8 scan c10 show ?thesis by blast
qed

text \<open>
  Claim C7, amended.  There is no stall detection and no error for a stalled workflow.
  Along every schedule: the main goroutine is blocked in \<open>wg.Wait\<close> only while a
  worker is in flight; when it is at \<open>wg.Wait\<close>, or has been released from it, and no
  worker is in flight, \<open>ExecuteWorkflow\<close> returns, whether or not tasks are still
  \<open>Pending\<close>, and leaves the workflow as it is.  Every value it returns is the empty
  string without error when no final task is declared; when one is declared it is the
  error \<open>final task failed\<close> followed by an error, with an error recorded under the
  final task id, or a result, with a result recorded under the final task id, or the
  error \<open>final task result not found\<close>.  No reason is recorded for a task that was
  not started: a result or an error that was not in the workflow passed in stands
  under the id of a task for which a worker was spawned, and a task for which no
  worker was spawned is as it was passed in.  A task with a dependency that names no
  task never has a worker.
\<close>

theorem quiescent_workflow_returns_final_result:
  assumes "run registry (init w) es = Some s"
  shows "(main s = Blocked \<longrightarrow> wg_counter s \<noteq> 0) \<and>
         ((main s = Waiting \<or> main s = Released) \<and> wg_counter s = 0 \<longrightarrow>
            step registry s MainStep
              = Some (s\<lparr>main := Returned (final_result (wf s)), cancelled := True\<rparr>)) \<and>
         (\<forall>r. main s = Returned r \<longrightarrow>
            (FinalTaskID w = [] \<longrightarrow> r = Inr []) \<and>
            (FinalTaskID w \<noteq> [] \<longrightarrow>
               (\<exists>e. r = Inl (''final task failed: '' @ e) \<and> Errors (wf s) (FinalTaskID w) \<noteq> None) \<or>
               (\<exists>x. r = Inr x \<and> Results (wf s) (FinalTaskID w) \<noteq> None) \<or>
               r = Inl ''final task result not found'')) \<and>
         (\<forall>d. Results (wf s) d \<noteq> Results w d \<or> Errors (wf s) d \<noteq> Errors w d \<longrightarrow>
              (\<exists>k<length (workers s). t_ID (Tasks w ! w_task (workers s ! k)) = d)) \<and>
         (\<forall>i d. i < length (Tasks w) \<and> d \<in> set (t_Dependencies (Tasks w ! i)) \<and>
              d \<notin> set (map t_ID (Tasks w)) \<longrightarrow>
              Tasks (wf s) ! i = Tasks w ! i \<and> (\<forall>k<length (workers s). w_task (workers s ! k) \<noteq> i)) \<and>
         (\<forall>i. i < length (Tasks w) \<and> (\<forall>k<length (workers s). w_task (workers s ! k) \<noteq> i) \<longrightarrow>
              Tasks (wf s) ! i = Tasks w ! i)"
proof -
  from orch_inv_run[OF orch_inv_init assms] have inv: "orch_inv w s" .
  then have st: "same_tasks w s" and rd: "workers_ready s" and mk: "marks_known w s"
    and rw: "recorded_by_workers w s" and rv: "returned_value w s"
    by (simp_all add: orch_inv_def)
  from blocked_run[OF orch_inv_init blocked_init assms]
  have c1: "main s = Blocked \<longrightarrow> wg_counter s \<noteq> 0"
    by (simp add: blocked_waits_def)
  have c2: "(main s = Waiting \<or> main s = Released) \<and> wg_counter s = 0 \<longrightarrow>
            step registry s MainStep
              = Some (s\<lparr>main := Returned (final_result (wf s)), cancelled := True\<rparr>)"
    by auto
  have c3: "\<forall>r. main s = Returned r \<longrightarrow>
            (FinalTaskID w = [] \<longrightarrow> r = Inr []) \<and>
            (FinalTaskID w \<noteq> [] \<longrightarrow>
               (\<exists>e. r = Inl (''final task failed: '' @ e) \<and> Errors (wf s) (FinalTaskID w) \<noteq> None) \<or>
               (\<exists>x. r = Inr x \<and> Results (wf s) (FinalTaskID w) \<noteq> None) \<or>
               r = Inl ''final task result not found'')"
  proof (intro allI impI)
    fix r assume "main s = Returned r"
    with rv
    have "if FinalTaskID w = [] then r = Inr []
          else (\<exists>e. r = Inl (''final task failed: '' @ e) \<and> Errors (wf s) (FinalTaskID w) \<noteq> None) \<or>
               (\<exists>x. r = Inr x \<and> Results (wf s) (FinalTaskID w) \<noteq> None) \<or>
               r = Inl ''final task result not found''"
      unfolding returned_value_def by blast
    then show "(FinalTaskID w = [] \<longrightarrow> r = Inr []) \<and>
            (FinalTaskID w \<noteq> [] \<longrightarrow>
               (\<exists>e. r = Inl (''final task failed: '' @ e) \<and> Errors (wf s) (FinalTaskID w) \<noteq> None) \<or>
               (\<exists>x. r = Inr x \<and> Results (wf s) (FinalTaskID w) \<noteq> None) \<or>
               r = Inl ''final task result not found'')"
      by (cases "FinalTaskID w = []") (simp_all only: if_True if_False not_False_eq_True simp_thms)
  qed
  from rw
  have c4: "\<forall>d. Results (wf s) d \<noteq> Results w d \<or> Errors (wf s) d \<noteq> Errors w d \<longrightarrow>
              (\<exists>k<length (workers s). t_ID (Tasks w ! w_task (workers s ! k)) = d)"
    unfolding recorded_by_workers_def .
  have len: "length (Tasks (wf s)) = length (Tasks w)"
    using st unfolding same_tasks_def by (metis length_map)
  have c5: "\<forall>i d. i < length (Tasks w) \<and> d \<in> set (t_Dependencies (Tasks w ! i)) \<and>
              d \<notin> set (map t_ID (Tasks w)) \<longrightarrow>
              Tasks (wf s) ! i = Tasks w ! i \<and> (\<forall>k<length (workers s). w_task (workers s ! k) \<noteq> i)"
  proof (intro allI impI)
    fix i d
    assume a: "i < length (Tasks w) \<and> d \<in> set (t_Dependencies (Tasks w ! i)) \<and>
              d \<notin> set (map t_ID (Tasks w))"
    then have i: "i < length (Tasks w)" and d: "d \<in> set (t_Dependencies (Tasks w ! i))"
      and nd: "d \<notin> set (map t_ID (Tasks w))" by simp_all
    have dep: "t_Dependencies (Tasks (wf s) ! i) = t_Dependencies (Tasks w ! i)"
      using st i len unfolding same_tasks_def by (metis nth_map)
    have no: "\<forall>j<length (workers s). w_task (workers s ! j) \<noteq> i"
    proof (intro allI impI notI)
      fix j assume j: "j < length (workers s)" and e: "w_task (workers s ! j) = i"
      with rd have "list_all (completedTasks s) (t_Dependencies (Tasks (wf s) ! i))"
        by (auto simp: workers_ready_def)
      with d dep have "completedTasks s d" by (simp add: list_all_iff)
      with mk nd show False by (simp add: marks_known_def)
    qed
    with mk i have "Tasks (wf s) ! i = Tasks w ! i" by (simp add: marks_known_def)
    with no show "Tasks (wf s) ! i = Tasks w ! i \<and> (\<forall>k<length (workers s). w_task (workers s ! k) \<noteq> i)"
      by simp
  qed
  from mk
  have c6: "\<forall>i. i < length (Tasks w) \<and> (\<forall>k<length (workers s). w_task (workers s ! k) \<noteq> i) \<longrightarrow>
              Tasks (wf s) ! i = Tasks w ! i"
    unfolding marks_known_def by blast
  from c1 c2 c3 c4 c5 c6 show ?thesis by (intro conjI)
qed

theorem quiescent_workflow_returns_final_result_witness:
  "main (the (run any_agent (init wf_chain) [MainStep, MainStep, MainStep, MainStep])) = Blocked \<and>
   wg_counter (the (run any_agent (init wf_chain) [MainStep, MainStep, MainStep, MainStep])) \<noteq> 0 \<and>
   main (the (run any_agent (init wf_dangling) [MainStep, MainStep])) = Waiting \<and>
   wg_counter (the (run any_agent (init wf_dangling) [MainStep, MainStep])) = 0 \<and>
   map_option (\<lambda>s. (main s, statuses s))
       (step any_agent (the (run any_agent (init wf_dangling) [MainStep, MainStep])) MainStep)
     = Some (Returned (Inr []), [TaskPending]) \<and>
   main (the (run any_agent (init wf_chain) released_schedule)) = Released \<and>
   wg_counter (the (run any_agent (init wf_chain) released_schedule)) = 0 \<and>
   map_option (\<lambda>s. (main s, statuses s))
       (step any_agent (the (run any_agent (init wf_chain) released_schedule)) MainStep)
     = Some (Returned (Inl ''final task result not found''), [TaskFailed, TaskPending]) \<and>
   map_option main (run any_agent (init wf_chain) reused_schedule) = Some Crashed \<and>
   main (the (run any_agent (init (SetFinalTask ''T1'' wf_chain)) early_return_schedule))
     = Returned (Inl ''final task failed: agent execution failed: boom'') \<and>
   Errors (wf (the (run any_agent (init (SetFinalTask ''T1'' wf_chain)) early_return_schedule))) ''T1''
     \<noteq> None \<and>
   Errors (wf (the (run any_agent (init wf_chain) released_schedule))) ''T1'' \<noteq> Errors wf_chain ''T1'' \<and>
   (\<exists>k<length (workers (the (run any_agent (init wf_chain) released_schedule))).
       t_ID (Tasks wf_chain ! w_task (workers (the (run any_agent (init wf_chain) released_schedule)) ! k))
         = ''T1'') \<and>
   ''X'' \<in> set (t_Dependencies (Tasks wf_dangling ! 0)) \<and> ''X'' \<notin> set (map t_ID (Tasks wf_dangling)) \<and>
   Tasks (wf (the (run any_agent (init wf_dangling) [MainStep, MainStep]))) ! 0 = Tasks wf_dangling ! 0 \<and>
   workers (the (run any_agent (init wf_chain) released_schedule)) = [\<lparr>w_task = 0, w_phase = Finished\<rparr>] \<and>
   Tasks (wf (the (run any_agent (init wf_chain) released_schedule))) ! 1 = Tasks wf_chain ! 1"
proof -
  let ?B = "the (run any_agent (init wf_chain) [MainStep, MainStep, MainStep, MainStep])"
  let ?S = "the (run any_agent (init wf_dangling) [MainStep, MainStep])"
  let ?R = "the (run any_agent (init wf_chain) released_schedule)"
  let ?F = "the (run any_agent (init (SetFinalTask ''T1'' wf_chain)) early_return_schedule)"
  have b: "run any_agent (init wf_chain) [MainStep, MainStep, MainStep, MainStep] = Some ?B"
    by (simp add: orch_eval wf_chain_def any_agent_def)
  have r: "run any_agent (init wf_dangling) [MainStep, MainStep] = Some ?S"
    by (simp add: orch_eval wf_dangling_def)
  have rl: "run any_agent (init wf_chain) released_schedule = Some ?R"
    by (simp add: orch_eval wf_chain_def any_agent_def released_schedule_def)
  have f: "run any_agent (init (SetFinalTask ''T1'' wf_chain)) early_return_schedule = Some ?F"
    by (simp add: orch_eval wf_chain_def any_agent_def early_return_schedule_def released_schedule_def)
  have bm: "main ?B = Blocked"
    by (simp add: orch_eval wf_chain_def any_agent_def)
  have q: "(main ?S = Waiting \<or> main ?S = Released) \<and> wg_counter ?S = 0"
    by (simp add: orch_eval wf_dangling_def)
  have qm: "main ?S = Waiting"
    by (simp add: orch_eval wf_dangling_def)
  have q': "(main ?R = Waiting \<or> main ?R = Released) \<and> wg_counter ?R = 0"
    by (simp add: orch_eval wf_chain_def any_agent_def released_schedule_def)
  have qm': "main ?R = Released"
    by (simp add: orch_eval wf_chain_def any_agent_def released_schedule_def)
  have fr: "final_result (wf ?S) = Inr []" "statuses ?S = [TaskPending]"
    by (simp_all add: orch_eval wf_dangling_def)
  have fr': "final_result (wf ?R) = Inl ''final task result not found''"
    "statuses ?R = [TaskFailed, TaskPending]"
    by (simp_all add: orch_eval wf_chain_def any_agent_def released_schedule_def)
  have crash: "map_option main (run any_agent (init wf_chain) reused_schedule) = Some Crashed"
    by (simp add: orch_eval wf_chain_def any_agent_def reused_schedule_def released_schedule_def)
  have fm: "main ?F = Returned (Inl ''final task failed: agent execution failed: boom'')"
    by (simp add: orch_eval wf_chain_def any_agent_def early_return_schedule_def released_schedule_def)
  have ff: "FinalTaskID (SetFinalTask ''T1'' wf_chain) = ''T1''"
    "FinalTaskID (SetFinalTask ''T1'' wf_chain) \<noteq> []"
    by (simp_all add: orch_eval wf_chain_def)
  have ch: "Results (wf ?R) ''T1'' \<noteq> Results wf_chain ''T1'' \<or> Errors (wf ?R) ''T1'' \<noteq> Errors wf_chain ''T1''"
    and ch': "Errors (wf ?R) ''T1'' \<noteq> Errors wf_chain ''T1''"
    by (simp_all add: orch_eval wf_chain_def any_agent_def released_schedule_def)
  have dang: "0 < length (Tasks wf_dangling) \<and> ''X'' \<in> set (t_Dependencies (Tasks wf_dangling ! 0)) \<and>
      ''X'' \<notin> set (map t_ID (Tasks wf_dangling))"
    by (simp add: orch_eval wf_dangling_def)
  note tb = quiescent_workflow_returns_final_result[OF b]
  note ts = quiescent_workflow_returns_final_result[OF r]
  note tr = quiescent_workflow_returns_final_result[OF rl]
  note tf = quiescent_workflow_returns_final_result[OF f]
  from tb[THEN conjunct1, rule_format, OF bm] have c1: "wg_counter ?B \<noteq> 0" .
  have c2: "map_option (\<lambda>s. (main s, statuses s)) (step any_agent ?S MainStep)
     = Some (Returned (Inr []), [TaskPending])"
    unfolding ts[THEN conjunct2, THEN conjunct1, rule_format, OF q] after_return fr
    by (rule refl)
  have c3: "map_option (\<lambda>s. (main s, statuses s)) (step any_agent ?R MainStep)
     = Some (Returned (Inl ''final task result not found''), [TaskFailed, TaskPending])"
    unfolding tr[THEN conjunct2, THEN conjunct1, rule_format, OF q'] after_return fr'
    by (rule refl)
  from tf[THEN conjunct2, THEN conjunct2, THEN conjunct1, rule_format, OF fm, THEN conjunct2,
      rule_format, OF ff(2)]
  have c4: "Errors (wf ?F) ''T1'' \<noteq> None"
    unfolding ff(1) by auto
  from tr[THEN conjunct2, THEN conjunct2, THEN conjunct2, THEN conjunct1, rule_format, OF ch]
  have c5: "\<exists>k<length (workers ?R). t_ID (Tasks wf_chain ! w_task (workers ?R ! k)) = ''T1''" .
  from ts[THEN conjunct2, THEN conjunct2, THEN conjunct2, THEN conjunct2, THEN conjunct1,
      rule_format, OF dang, THEN conjunct1]
  have c6: "Tasks (wf ?S) ! 0 = Tasks wf_dangling ! 0" .
  have wr: "workers ?R = [\<lparr>w_task = 0, w_phase = Finished\<rparr>]"
    by (simp add: orch_eval wf_chain_def any_agent_def released_schedule_def)
  have nw: "1 < length (Tasks wf_chain) \<and> (\<forall>k<length (workers ?R). w_task (workers ?R ! k) \<noteq> 1)"
    unfolding wr by (simp add: orch_eval wf_chain_def)
  from tr[THEN conjunct2, THEN conjunct2, THEN conjunct2, THEN conjunct2, THEN conjunct2,
      rule_format, OF nw]
  have c7: "Tasks (wf ?R) ! 1 = Tasks wf_chain ! 1" .
  from bm c1 qm q c2 qm' q' c3 crash fm c4 ch' c5 dang c6 wr c7 show ?thesis by blast
qed

end
